theory Spec2Isabelle
  imports
    Complex_Main
    "HOL-Library.Multiset"
    "HOL-Library.AList"
    "HOL-Library.Char_ord"
    "HOL-Library.List_Lexorder"
begin

section \<open>Decoded input values and Python's run-time errors\<close>

text \<open>
  The optimizer works on whatever \<^verbatim>\<open>json.load\<close> returns: \<^verbatim>\<open>None\<close>, booleans,
  integers (unbounded), floats, strings, lists and dictionaries with string keys.
  A dictionary is an association list in insertion order that holds each key once;
  a lookup takes the binding of the key.

  Floats are idealised: a float is the real number it denotes, float arithmetic is
  exact, and the constants \<^verbatim>\<open>0.80\<close>, \<^verbatim>\<open>0.95\<close>, \<^verbatim>\<open>0.15\<close>, ... are the decimal
  fractions written in the source. Rounding, overflow, \<^verbatim>\<open>NaN\<close> and the infinities
  are outside this model. Strings are lists of \<open>char\<close>, compared
  lexicographically by character code as Python compares them.
\<close>

datatype json =
    JNull
  | JBool bool
  | JInt int
  | JFloat real
  | JStr string
  | JList "json list"
  | JDict "(string \<times> json) list"

datatype py_exception = KeyError | TypeError | ValueError | ZeroDivisionError

text \<open>A computation that may raise: \<open>Inl\<close> the exception, \<open>Inr\<close> the value.\<close>

definition bnd :: "'e + 'a \<Rightarrow> ('a \<Rightarrow> 'e + 'b) \<Rightarrow> 'e + 'b" where
  "bnd m f = (case m of Inl e \<Rightarrow> Inl e | Inr v \<Rightarrow> f v)"

text \<open>Evaluating a generator expression: the first element that raises ends it.\<close>

fun map_raise :: "('a \<Rightarrow> 'e + 'b) \<Rightarrow> 'a list \<Rightarrow> 'e + 'b list" where
  "map_raise f [] = Inr []"
| "map_raise f (x # xs) = bnd (f x) (\<lambda>y. bnd (map_raise f xs) (\<lambda>ys. Inr (y # ys)))"

text \<open>\<^verbatim>\<open>isinstance(v, dict)\<close>, \<^verbatim>\<open>isinstance(v, list)\<close> and
  \<^verbatim>\<open>isinstance(v, (int, float))\<close>; in Python \<^verbatim>\<open>bool\<close> is a subclass of \<^verbatim>\<open>int\<close>.\<close>

fun is_dict :: "json \<Rightarrow> bool" where
  "is_dict (JDict d) = True"
| "is_dict v = False"

fun is_list :: "json \<Rightarrow> bool" where
  "is_list (JList xs) = True"
| "is_list v = False"

fun is_number :: "json \<Rightarrow> bool" where
  "is_number (JBool b) = True"
| "is_number (JInt i) = True"
| "is_number (JFloat r) = True"
| "is_number v = False"

text \<open>The numeric value of a number; \<^verbatim>\<open>True\<close> is 1 and \<^verbatim>\<open>False\<close> is 0.\<close>

fun num_val :: "json \<Rightarrow> real" where
  "num_val (JBool b) = (if b then 1 else 0)"
| "num_val (JInt i) = real_of_int i"
| "num_val (JFloat r) = r"
| "num_val v = 0"

text \<open>Arithmetic with a number on the other side raises \<^verbatim>\<open>TypeError\<close> for every
  operand that is not a number (a string or list repeated by an integer raises it one
  step later, when the product meets a float or the sum's integer start value).\<close>

definition as_num :: "json \<Rightarrow> py_exception + real" where
  "as_num v = (if is_number v then Inr (num_val v) else Inl TypeError)"

text \<open>\<^verbatim>\<open>p[key]\<close>, \<^verbatim>\<open>key in d\<close> and \<^verbatim>\<open>d.get(key, default)\<close>.\<close>

fun subscript :: "json \<Rightarrow> string \<Rightarrow> py_exception + json" where
  "subscript (JDict d) key = (case map_of d key of None \<Rightarrow> Inl KeyError | Some v \<Rightarrow> Inr v)"
| "subscript v key = Inl TypeError"

definition has_key :: "(string \<times> json) list \<Rightarrow> string \<Rightarrow> bool" where
  "has_key d key = (map_of d key \<noteq> None)"

definition dict_get :: "(string \<times> json) list \<Rightarrow> string \<Rightarrow> json \<Rightarrow> json" where
  "dict_get d key dflt = (case map_of d key of None \<Rightarrow> dflt | Some v \<Rightarrow> v)"

text \<open>\<^verbatim>\<open>a / b\<close> and \<^verbatim>\<open>math.sqrt(x)\<close> on numbers.\<close>

definition py_div :: "real \<Rightarrow> real \<Rightarrow> py_exception + real" where
  "py_div a b = (if b = 0 then Inl ZeroDivisionError else Inr (a / b))"

definition py_sqrt :: "real \<Rightarrow> py_exception + real" where
  "py_sqrt x = (if x < 0 then Inl ValueError else Inr (sqrt x))"

subsection \<open>Formatting\<close>

text \<open>The decimal digits of an index, as an f-string prints it.\<close>

fun show_nat :: "nat \<Rightarrow> string" where
  "show_nat n =
     (if n < 10 then [''0123456789'' ! n]
      else show_nat (n div 10) @ [''0123456789'' ! (n mod 10)])"

definition show_int :: "int \<Rightarrow> string" where
  "show_int i = (if i < 0 then ''-'' @ show_nat (nat (- i)) else show_nat (nat i))"

text \<open>\<^verbatim>\<open>str(v)\<close>, as an f-string inserts a value. The text of a float, a list or a
  dictionary is the Python runtime's; it is the parameter \<open>repr\<close>.\<close>

fun py_str :: "(json \<Rightarrow> string) \<Rightarrow> json \<Rightarrow> string" where
  "py_str repr (JStr s) = s"
| "py_str repr (JInt i) = show_int i"
| "py_str repr (JBool b) = (if b then ''True'' else ''False'')"
| "py_str repr JNull = ''None''"
| "py_str repr v = repr v"

section \<open>DataValidator\<close>

text \<open>The validator's state is its list of errors; each method takes it and returns
  it extended.\<close>

definition required_keys :: "string list" where
  "required_keys =
     [''sku'', ''product_name'', ''frequency'', ''category'', ''dimensions_cm'',
      ''weight_kg'', ''unit_cost'']"

definition check_overall_format :: "json \<Rightarrow> string list \<Rightarrow> string list" where
  "check_overall_format data errors =
     (if \<not> is_list data then errors @ [''Invalid data format: Expected a JSON list.'']
      else errors)"

text \<open>\<^verbatim>\<open>isinstance(x, (int, float)) and x >= 0\<close>.\<close>

definition number_ge0 :: "json \<Rightarrow> bool" where
  "number_ge0 v = (is_number v \<and> num_val v \<ge> 0)"

text \<open>\<^verbatim>\<open>isinstance(dims, dict) and all(k in dims for k in ['length', 'width', 'height'])\<close>.\<close>

fun dims_ok :: "json \<Rightarrow> bool" where
  "dims_ok (JDict dims) = list_all (has_key dims) [''length'', ''width'', ''height'']"
| "dims_ok v = False"

definition invalid_msg :: "(json \<Rightarrow> string) \<Rightarrow> string \<Rightarrow> (string \<times> json) list \<Rightarrow> nat \<Rightarrow> string" where
  "invalid_msg repr field product index =
     ''Invalid '' @ [CHR 0x27] @ field @ [CHR 0x27] @ '' for SKU '' @ [CHR 0x27]
       @ py_str repr (dict_get product ''sku'' (JStr ''N/A'')) @ [CHR 0x27]
       @ '' at index '' @ show_nat index @ ''.''"

definition validate_numerical_fields ::
  "(json \<Rightarrow> string) \<Rightarrow> (string \<times> json) list \<Rightarrow> nat \<Rightarrow> string list \<Rightarrow> string list" where
  "validate_numerical_fields repr product index errors =
     (let frequency = dict_get product ''frequency'' (JInt (- 1));
          unit_cost = dict_get product ''unit_cost'' (JInt (- 1));
          weight = dict_get product ''weight_kg'' (JInt (- 1));
          dims = dict_get product ''dimensions_cm'' (JDict []);
          errors = (if \<not> number_ge0 frequency
                    then errors @ [invalid_msg repr ''frequency'' product index] else errors);
          errors = (if \<not> number_ge0 unit_cost
                    then errors @ [invalid_msg repr ''unit_cost'' product index] else errors);
          errors = (if \<not> number_ge0 weight
                    then errors @ [invalid_msg repr ''weight_kg'' product index] else errors);
          errors = (if \<not> dims_ok dims
                    then errors @ [invalid_msg repr ''dimensions_cm'' product index] else errors)
      in errors)"

definition missing_msg :: "nat \<Rightarrow> string \<Rightarrow> string" where
  "missing_msg i key =
     ''Product at index '' @ show_nat i @ '' is missing required key: '' @ [CHR 0x27] @ key
       @ [CHR 0x27] @ ''.''"

definition not_dict_msg :: "nat \<Rightarrow> string" where
  "not_dict_msg i = ''Product at index '' @ show_nat i @ '' is not a dictionary.''"

text \<open>The inner loop \<^verbatim>\<open>for key in required_keys\<close>.\<close>

fun check_keys :: "(string \<times> json) list \<Rightarrow> nat \<Rightarrow> string list \<Rightarrow> string list \<Rightarrow> string list" where
  "check_keys product i [] errors = errors"
| "check_keys product i (key # keys) errors =
     check_keys product i keys
       (if \<not> has_key product key then errors @ [missing_msg i key] else errors)"

text \<open>The outer loop \<^verbatim>\<open>for i, product in enumerate(self.data)\<close>, from index \<open>i\<close> on.\<close>

fun check_products_from ::
  "(json \<Rightarrow> string) \<Rightarrow> nat \<Rightarrow> json list \<Rightarrow> string list \<Rightarrow> string list" where
  "check_products_from repr i [] errors = errors"
| "check_products_from repr i (product # rest) errors =
     (case product of
        JDict d \<Rightarrow>
          check_products_from repr (Suc i) rest
            (validate_numerical_fields repr d i (check_keys d i required_keys errors))
      | _ \<Rightarrow> check_products_from repr (Suc i) rest (errors @ [not_dict_msg i]))"

text \<open>What \<^verbatim>\<open>enumerate\<close> iterates over: the elements of a list, the keys of a
  dictionary, the characters of a string; any other value is not iterable.\<close>

fun py_iter :: "json \<Rightarrow> py_exception + json list" where
  "py_iter (JList xs) = Inr xs"
| "py_iter (JDict d) = Inr (map (\<lambda>kv. JStr (fst kv)) d)"
| "py_iter (JStr s) = Inr (map (\<lambda>c. JStr [c]) s)"
| "py_iter v = Inl TypeError"

definition check_product_fields ::
  "(json \<Rightarrow> string) \<Rightarrow> json \<Rightarrow> string list \<Rightarrow> py_exception + string list" where
  "check_product_fields repr data errors =
     bnd (py_iter data) (\<lambda>items. Inr (check_products_from repr 0 items errors))"

definition validate_all :: "(json \<Rightarrow> string) \<Rightarrow> json \<Rightarrow> py_exception + string list" where
  "validate_all repr data =
     (let errors = check_overall_format data []
      in if errors = [] then check_product_fields repr data errors else Inr errors)"

section \<open>WarehouseOptimizer\<close>

subsection \<open>Configuration and state\<close>

definition WALKING_SPEED_MPS :: real where "WALKING_SPEED_MPS = 12 / 10"
definition LABOR_COST_PER_HOUR :: real where "LABOR_COST_PER_HOUR = 225 / 10"
definition A_CATEGORY_PERCENTAGE :: real where "A_CATEGORY_PERCENTAGE = 80 / 100"
definition B_CATEGORY_PERCENTAGE :: real where "B_CATEGORY_PERCENTAGE = 95 / 100"
definition ZONE_A_DISTANCE_M :: real where "ZONE_A_DISTANCE_M = 5"
definition ZONE_B_DISTANCE_M :: real where "ZONE_B_DISTANCE_M = 15"
definition ZONE_C_DISTANCE_M :: real where "ZONE_C_DISTANCE_M = 30"
definition ANNUAL_HOLDING_COST_PERCENTAGE :: real where "ANNUAL_HOLDING_COST_PERCENTAGE = 15 / 100"
definition COST_PER_ORDER :: real where "COST_PER_ORDER = 50"
definition DEMAND_VARIABILITY_FACTOR :: real where "DEMAND_VARIABILITY_FACTOR = 2 / 10"

text \<open>The value of \<^verbatim>\<open>inventory_metrics[sku]\<close>: \<^verbatim>\<open>{"eoq": ..., "safety_stock": ...}\<close>.\<close>

record inventory_entry =
  eoq :: int
  safety_stock :: int

text \<open>The dictionary \<^verbatim>\<open>_create_results_data_for_json\<close> returns and
  \<^verbatim>\<open>json.dump\<close> writes.\<close>

record report =
  report_metrics :: "(string \<times> real) list"
  abc_analysis :: "(string \<times> json list) list"
  report_inventory_metrics :: "(json \<times> inventory_entry) list"
  layouts_original :: "json list"
  layouts_optimized :: "(string \<times> json list) list"

text \<open>
  The optimizer object, with what it prints and the output file it has written.
  \<open>report_data\<close> only ever holds the key \<^verbatim>\<open>'inventory_metrics'\<close>: it is
  \<open>None\<close> while the key is absent.
\<close>

record optimizer =
  data_filepath :: string
  products :: "json list"
  categories :: "(string \<times> json list) list"
  metrics :: "(string \<times> real) list"
  report_data :: "(json \<times> inventory_entry) list option"
  printed :: "string list"
  output_file :: "report option"

definition init :: "string \<Rightarrow> optimizer" where
  "init filepath =
     \<lparr>data_filepath = filepath, products = [], categories = [], metrics = [],
      report_data = None, printed = [], output_file = None\<rparr>"

definition print :: "string \<Rightarrow> optimizer \<Rightarrow> optimizer" where
  "print line s = s\<lparr>printed := printed s @ [line]\<rparr>"

text \<open>What the outside world gives a run: the three outcomes of opening and decoding
  the input file that \<^verbatim>\<open>load_data\<close> tells apart, the text of a float, list or
  dictionary (see \<open>py_str\<close>), and whether writing the output file fails (with the
  text of the \<^verbatim>\<open>IOError\<close>).\<close>

datatype file_read = FileNotFound | InvalidJSON | Decoded json

record environment =
  input_file :: file_read
  repr_of :: "json \<Rightarrow> string"
  write_error :: "string option"

subsection \<open>load\_data\<close>

text \<open>\<^verbatim>\<open>self.products = data\<close> runs only when the validator has returned no error,
  and then \<open>data\<close> is a list (lemma \<open>validate_all_Nil_is_list\<close>).\<close>

fun list_items :: "json \<Rightarrow> json list" where
  "list_items (JList xs) = xs"
| "list_items v = []"

definition load_data :: "environment \<Rightarrow> optimizer \<Rightarrow> py_exception + optimizer" where
  "load_data env s0 =
     (let s = print ''Initializing Warehouse Optimizer...'' s0
      in case input_file env of
           Decoded data \<Rightarrow>
             bnd (validate_all (repr_of env) data) (\<lambda>errors.
               if errors \<noteq> [] then
                 Inr ((foldl (\<lambda>t error. print (''  - '' @ error) t)
                        (print ''Data validation failed. Please correct the following errors:'' s)
                        errors)\<lparr>products := []\<rparr>)
               else
                 Inr (print ''Data loaded and validated successfully.''
                        (s\<lparr>products := list_items data\<rparr>)))
         | FileNotFound \<Rightarrow>
             Inr ((print (''Error: The file '' @ [CHR 0x27] @ data_filepath s @ [CHR 0x27]
                           @ '' was not found.'') s)\<lparr>products := []\<rparr>)
         | InvalidJSON \<Rightarrow>
             Inr ((print (''Error: The file '' @ [CHR 0x27] @ data_filepath s @ [CHR 0x27]
                           @ '' contains invalid JSON.'') s)\<lparr>products := []\<rparr>))"

subsection \<open>run\_abc\_analysis\<close>

text \<open>\<^verbatim>\<open>p['frequency']\<close> used as a number.\<close>

definition frequency_of :: "json \<Rightarrow> py_exception + real" where
  "frequency_of p = bnd (subscript p ''frequency'') as_num"

text \<open>\<^verbatim>\<open>sum(f(x) for x in xs)\<close>: the accumulator starts at 0.\<close>

fun sum_from :: "('a \<Rightarrow> py_exception + real) \<Rightarrow> real \<Rightarrow> 'a list \<Rightarrow> py_exception + real" where
  "sum_from f acc [] = Inr acc"
| "sum_from f acc (x # xs) = bnd (f x) (\<lambda>v. sum_from f (acc + v) xs)"

definition py_sum :: "('a \<Rightarrow> py_exception + real) \<Rightarrow> 'a list \<Rightarrow> py_exception + real" where
  "py_sum f xs = sum_from f 0 xs"

text \<open>\<^verbatim>\<open>sorted(self.products, key=lambda p: p['frequency'], reverse=True)\<close>: the keys
  are computed first; the sort is stable, also with \<^verbatim>\<open>reverse=True\<close>. The keys are
  numbers here, the sum before it having raised otherwise.\<close>

definition sorted_by_frequency_desc :: "json list \<Rightarrow> py_exception + json list" where
  "sorted_by_frequency_desc ps =
     bnd (map_raise frequency_of ps) (\<lambda>keys.
       Inr (map snd (sort_key (\<lambda>kp. - fst kp) (zip keys ps))))"

text \<open>The loop over the sorted products, with \<open>current_percentage\<close> and the three
  lists as its state.\<close>

fun abc_loop ::
  "real \<Rightarrow> json list \<Rightarrow> real \<Rightarrow> json list \<times> json list \<times> json list
     \<Rightarrow> py_exception + json list \<times> json list \<times> json list" where
  "abc_loop total_frequency [] current_percentage (category_a, category_b, category_c) =
     Inr (category_a, category_b, category_c)"
| "abc_loop total_frequency (p # rest) current_percentage (category_a, category_b, category_c) =
     bnd (frequency_of p) (\<lambda>frequency.
     bnd (py_div frequency total_frequency) (\<lambda>item_percentage.
       let current_percentage = current_percentage + item_percentage
       in if current_percentage \<le> A_CATEGORY_PERCENTAGE then
            abc_loop total_frequency rest current_percentage
              (category_a @ [p], category_b, category_c)
          else if current_percentage \<le> B_CATEGORY_PERCENTAGE then
            abc_loop total_frequency rest current_percentage
              (category_a, category_b @ [p], category_c)
          else
            abc_loop total_frequency rest current_percentage
              (category_a, category_b, category_c @ [p])))"

definition run_abc_analysis :: "optimizer \<Rightarrow> py_exception + optimizer" where
  "run_abc_analysis s =
     (if products s = [] then Inr s
      else
        bnd (py_sum frequency_of (products s)) (\<lambda>total_frequency.
          if total_frequency = 0 then
            Inr (print ''Total frequency is zero. Analysis cannot be performed.'' s)
          else
            bnd (sorted_by_frequency_desc (products s)) (\<lambda>sorted_products.
            bnd (abc_loop total_frequency sorted_products 0 ([], [], [])) (\<lambda>(a, b, c).
              Inr (s\<lparr>categories :=
                       [(''categoryA'', a), (''categoryB'', b), (''categoryC'', c)]\<rparr>)))))"

subsection \<open>Metrics\<close>

text \<open>\<^verbatim>\<open>d[key]\<close> on the optimizer's own dictionaries, and \<^verbatim>\<open>d.get(key, [])\<close>.\<close>

definition lookup :: "(string \<times> 'v) list \<Rightarrow> string \<Rightarrow> py_exception + 'v" where
  "lookup d key = (case map_of d key of None \<Rightarrow> Inl KeyError | Some v \<Rightarrow> Inr v)"

definition get_or_empty :: "(string \<times> 'v list) list \<Rightarrow> string \<Rightarrow> 'v list" where
  "get_or_empty d key = (case map_of d key of None \<Rightarrow> [] | Some v \<Rightarrow> v)"

text \<open>\<^verbatim>\<open>enumerate(xs)\<close>.\<close>

definition enumerate_from0 :: "'a list \<Rightarrow> (nat \<times> 'a) list" where
  "enumerate_from0 xs = zip [0..<length xs] xs"

definition calculate_distance_metrics :: "optimizer \<Rightarrow> py_exception + optimizer" where
  "calculate_distance_metrics s =
     bnd (py_sum (\<lambda>(i, p). bnd (frequency_of p) (\<lambda>f. Inr (real (i + 1) * 2 * f)))
            (enumerate_from0 (products s))) (\<lambda>original_distance.
     bnd (lookup (categories s) ''categoryA'') (\<lambda>cat_a.
     bnd (py_sum (\<lambda>p. bnd (frequency_of p) (\<lambda>f. Inr (f * ZONE_A_DISTANCE_M))) cat_a) (\<lambda>sum_a.
     bnd (lookup (categories s) ''categoryB'') (\<lambda>cat_b.
     bnd (py_sum (\<lambda>p. bnd (frequency_of p) (\<lambda>f. Inr (f * ZONE_B_DISTANCE_M))) cat_b) (\<lambda>sum_b.
     bnd (lookup (categories s) ''categoryC'') (\<lambda>cat_c.
     bnd (py_sum (\<lambda>p. bnd (frequency_of p) (\<lambda>f. Inr (f * ZONE_C_DISTANCE_M))) cat_c) (\<lambda>sum_c.
       let optimized_distance = sum_a + sum_b + sum_c;
           distance_saved = original_distance - optimized_distance;
           efficiency_improvement =
             (if original_distance > 0 then (distance_saved / original_distance) * 100 else 0)
       in Inr (s\<lparr>metrics :=
                 AList.update ''efficiency_improvement'' efficiency_improvement
                   (AList.update ''distance_saved'' distance_saved
                     (AList.update ''optimized_distance'' optimized_distance
                       (AList.update ''original_distance'' original_distance
                         (metrics s))))\<rparr>))))))))"

definition calculate_financial_metrics :: "optimizer \<Rightarrow> py_exception + optimizer" where
  "calculate_financial_metrics s =
     bnd (lookup (metrics s) ''original_distance'') (\<lambda>original_distance.
     bnd (lookup (metrics s) ''optimized_distance'') (\<lambda>optimized_distance.
       let original_time_hours = original_distance / (WALKING_SPEED_MPS * 3600);
           optimized_time_hours = optimized_distance / (WALKING_SPEED_MPS * 3600);
           original_cost = original_time_hours * LABOR_COST_PER_HOUR;
           optimized_cost = optimized_time_hours * LABOR_COST_PER_HOUR;
           cost_saved = original_cost - optimized_cost;
           time_saved_hours = original_time_hours - optimized_time_hours
       in Inr (s\<lparr>metrics :=
                 AList.update ''time_saved_hours'' time_saved_hours
                   (AList.update ''cost_saved'' cost_saved
                     (AList.update ''optimized_cost'' optimized_cost
                       (AList.update ''original_cost'' original_cost
                         (AList.update ''optimized_time_hours'' optimized_time_hours
                           (AList.update ''original_time_hours'' original_time_hours
                             (metrics s))))))\<rparr>)))"

text \<open>
  The keys of \<open>inventory_metrics\<close> are the SKUs as decoded. A list or a dictionary is
  not hashable; numbers are the same key when they are equal as numbers. A key that is
  already there keeps its place and its first spelling, and gets the new value.
\<close>

fun hashable :: "json \<Rightarrow> bool" where
  "hashable (JList xs) = False"
| "hashable (JDict d) = False"
| "hashable v = True"

definition key_eq :: "json \<Rightarrow> json \<Rightarrow> bool" where
  "key_eq a b = (if is_number a \<and> is_number b then num_val a = num_val b else a = b)"

fun dict_store :: "json \<Rightarrow> 'v \<Rightarrow> (json \<times> 'v) list \<Rightarrow> (json \<times> 'v) list" where
  "dict_store k v [] = [(k, v)]"
| "dict_store k v ((k', v') # rest) =
     (if key_eq k k' then (k', v) # rest else (k', v') # dict_store k v rest)"

text \<open>The body of the loop of \<^verbatim>\<open>_calculate_inventory_metrics\<close> up to the entry
  it stores.\<close>

definition inventory_entry_of :: "json \<Rightarrow> py_exception + inventory_entry" where
  "inventory_entry_of p =
     bnd (subscript p ''frequency'') (\<lambda>D.
     bnd (subscript p ''unit_cost'') (\<lambda>unit_cost.
     bnd (as_num unit_cost) (\<lambda>c.
       let S = COST_PER_ORDER;
           H = c * ANNUAL_HOLDING_COST_PERCENTAGE
       in bnd (if H > 0 then
                 bnd (as_num D) (\<lambda>d.
                 bnd (py_div (2 * d * S) H) py_sqrt)
               else Inr 0) (\<lambda>eoq_value.
          bnd (frequency_of p) (\<lambda>f.
            let demand_std_dev_daily = (f / 365) * DEMAND_VARIABILITY_FACTOR;
                service_level_z_score = 1645 / 1000;
                lead_time_days = 7;
                safety_stock_value =
                  service_level_z_score * demand_std_dev_daily * sqrt lead_time_days
            in Inr \<lparr>eoq = \<lceil>eoq_value\<rceil>, safety_stock = \<lceil>safety_stock_value\<rceil>\<rparr>)))))"

fun inventory_loop ::
  "json list \<Rightarrow> (json \<times> inventory_entry) list \<Rightarrow> py_exception + (json \<times> inventory_entry) list" where
  "inventory_loop [] inventory_metrics = Inr inventory_metrics"
| "inventory_loop (p # rest) inventory_metrics =
     bnd (inventory_entry_of p) (\<lambda>entry.
     bnd (subscript p ''sku'') (\<lambda>sku.
       if hashable sku then inventory_loop rest (dict_store sku entry inventory_metrics)
       else Inl TypeError))"

definition calculate_inventory_metrics :: "optimizer \<Rightarrow> py_exception + optimizer" where
  "calculate_inventory_metrics s =
     bnd (inventory_loop (products s) []) (\<lambda>inventory_metrics.
       Inr (s\<lparr>report_data := Some inventory_metrics\<rparr>))"

definition calculate_all_metrics :: "optimizer \<Rightarrow> py_exception + optimizer" where
  "calculate_all_metrics s =
     (if products s = [] then Inr s
      else bnd (calculate_distance_metrics s) (\<lambda>s.
           bnd (calculate_financial_metrics s) calculate_inventory_metrics))"

subsection \<open>Assembling and saving the report\<close>

fun is_str :: "json \<Rightarrow> bool" where
  "is_str (JStr s) = True"
| "is_str v = False"

fun str_val :: "json \<Rightarrow> string" where
  "str_val (JStr s) = s"
| "str_val v = []"

text \<open>
  \<^verbatim>\<open>sorted(self.products, key=lambda p: p['sku'])\<close>: the keys are computed first.
  A list of at most one product needs no comparison. Strings compare with strings and
  numbers with numbers; any other pair of decoded scalars, and dictionaries, raise
  \<^verbatim>\<open>TypeError\<close>. Keys that are lists (which Python compares element by element)
  are rejected here as well: \<open>run\<close> never sorts them, since storing an unhashable
  SKU in \<^verbatim>\<open>_calculate_inventory_metrics\<close> has raised before.
\<close>

definition sorted_by_sku :: "json list \<Rightarrow> py_exception + json list" where
  "sorted_by_sku ps =
     bnd (map_raise (\<lambda>p. subscript p ''sku'') ps) (\<lambda>keys.
       if length keys \<le> 1 then Inr ps
       else if list_all is_str keys then
         Inr (map snd (sort_key (\<lambda>kp. str_val (fst kp)) (zip keys ps)))
       else if list_all is_number keys then
         Inr (map snd (sort_key (\<lambda>kp. num_val (fst kp)) (zip keys ps)))
       else Inl TypeError)"

definition create_results_data_for_json :: "optimizer \<Rightarrow> py_exception + report" where
  "create_results_data_for_json s =
     bnd (sorted_by_sku (products s)) (\<lambda>original_layout_products.
       let optimized_products_by_category =
             [(''A'', get_or_empty (categories s) ''categoryA''),
              (''B'', get_or_empty (categories s) ''categoryB''),
              (''C'', get_or_empty (categories s) ''categoryC'')]
       in case report_data s of
            None \<Rightarrow> Inl KeyError
          | Some inventory_metrics \<Rightarrow>
              Inr \<lparr>report_metrics = metrics s,
                   abc_analysis =
                     [(''categoryA'', get_or_empty (categories s) ''categoryA''),
                      (''categoryB'', get_or_empty (categories s) ''categoryB''),
                      (''categoryC'', get_or_empty (categories s) ''categoryC'')],
                   report_inventory_metrics = inventory_metrics,
                   layouts_original = original_layout_products,
                   layouts_optimized = optimized_products_by_category\<rparr>)"

text \<open>The output path is the default \<^verbatim>\<open>"warehouse_analysis_results.json"\<close>. An
  \<^verbatim>\<open>IOError\<close> while writing is caught and printed.\<close>

definition save_results_to_file :: "environment \<Rightarrow> optimizer \<Rightarrow> py_exception + optimizer" where
  "save_results_to_file env s =
     bnd (create_results_data_for_json s) (\<lambda>results_data.
       case write_error env of
         None \<Rightarrow>
           Inr (print ([CHR 0x0A] @ ''Analysis complete. Results saved to '' @ [CHR 0x27]
                        @ ''warehouse_analysis_results.json'' @ [CHR 0x27] @ ''.'')
                  (s\<lparr>output_file := Some results_data\<rparr>))
       | Some e \<Rightarrow> Inr (print (''Error saving file: '' @ e) s))"

subsection \<open>run\<close>

definition run_from :: "environment \<Rightarrow> optimizer \<Rightarrow> py_exception + optimizer" where
  "run_from env s0 =
     bnd (load_data env s0) (\<lambda>s.
       if products s = [] then Inr s
       else
         bnd (run_abc_analysis (print ''Data loaded successfully. Starting analysis...'' s))
           (\<lambda>s.
         bnd (calculate_all_metrics s) (save_results_to_file env)))"

text \<open>The main program: \<^verbatim>\<open>WarehouseOptimizer("real_world_product_data.json").run()\<close>.
  \<open>Inl\<close> is an exception that leaves \<^verbatim>\<open>run\<close>; the output file is written only by
  the last step, so nothing has been written then.\<close>

definition run :: "environment \<Rightarrow> py_exception + optimizer" where
  "run env = run_from env (init ''real_world_product_data.json'')"

section \<open>Notions used in the statements\<close>

text \<open>The errors the validator reports for the single record \<open>product\<close> at
  position \<open>i\<close>.\<close>

definition record_errors :: "(json \<Rightarrow> string) \<Rightarrow> nat \<Rightarrow> json \<Rightarrow> string list" where
  "record_errors repr i product = check_products_from repr i [product] []"

text \<open>A record that passes every check of the validator.\<close>

fun valid_product :: "json \<Rightarrow> bool" where
  "valid_product (JDict d) =
     (list_all (has_key d) required_keys
      \<and> number_ge0 (dict_get d ''frequency'' (JInt (- 1)))
      \<and> number_ge0 (dict_get d ''unit_cost'' (JInt (- 1)))
      \<and> number_ge0 (dict_get d ''weight_kg'' (JInt (- 1)))
      \<and> dims_ok (dict_get d ''dimensions_cm'' (JDict [])))"
| "valid_product v = False"

text \<open>The frequency of a product as a number (0 where \<^verbatim>\<open>p['frequency']\<close> raises).\<close>

definition freq :: "json \<Rightarrow> real" where
  "freq p = (case frequency_of p of Inr f \<Rightarrow> f | Inl e \<Rightarrow> 0)"

text \<open>The unit cost of a product as a number (0 where \<^verbatim>\<open>p['unit_cost']\<close> raises or is
  not a number).\<close>

definition cost :: "json \<Rightarrow> real" where
  "cost p = (case bnd (subscript p ''unit_cost'') as_num of Inr c \<Rightarrow> c | Inl e \<Rightarrow> 0)"

text \<open>The SKU of a product (\<^verbatim>\<open>None\<close> where \<^verbatim>\<open>p['sku']\<close> raises), and Python's
  \<^verbatim>\<open><=\<close> on the SKUs that compare: strings with strings, numbers with numbers.\<close>

definition sku_of :: "json \<Rightarrow> json" where
  "sku_of p = (case subscript p ''sku'' of Inr k \<Rightarrow> k | Inl e \<Rightarrow> JNull)"

fun sku_le :: "json \<Rightarrow> json \<Rightarrow> bool" where
  "sku_le (JStr a) (JStr b) = (a \<le> b)"
| "sku_le a b = (is_number a \<and> is_number b \<and> num_val a \<le> num_val b)"

text \<open>The values \<open>current_percentage\<close> takes in the loop of the classifier, and the
  share of the total frequency that the first \<open>i + 1\<close> products of the sorted list make
  up.\<close>

fun running_shares :: "real \<Rightarrow> real \<Rightarrow> real list \<Rightarrow> real list" where
  "running_shares tot cur [] = []"
| "running_shares tot cur (f # fs) = (cur + f / tot) # running_shares tot (cur + f / tot) fs"

definition cumulative_share :: "real \<Rightarrow> json list \<Rightarrow> nat \<Rightarrow> real" where
  "cumulative_share tot sp i = sum_list (map freq (take (Suc i) sp)) / tot"

text \<open>The positions of the sorted list that fall into each bucket.\<close>

definition bucket_a :: "real \<Rightarrow> json list \<Rightarrow> nat list" where
  "bucket_a tot sp =
     filter (\<lambda>i. cumulative_share tot sp i \<le> A_CATEGORY_PERCENTAGE) [0..<length sp]"

definition bucket_b :: "real \<Rightarrow> json list \<Rightarrow> nat list" where
  "bucket_b tot sp =
     filter (\<lambda>i. \<not> cumulative_share tot sp i \<le> A_CATEGORY_PERCENTAGE
                \<and> cumulative_share tot sp i \<le> B_CATEGORY_PERCENTAGE) [0..<length sp]"

definition bucket_c :: "real \<Rightarrow> json list \<Rightarrow> nat list" where
  "bucket_c tot sp =
     filter (\<lambda>i. \<not> cumulative_share tot sp i \<le> A_CATEGORY_PERCENTAGE
                \<and> \<not> cumulative_share tot sp i \<le> B_CATEGORY_PERCENTAGE) [0..<length sp]"

section \<open>Example inputs\<close>

text \<open>Concrete inputs for the examples.\<close>

definition example_product :: "string \<Rightarrow> json \<Rightarrow> json \<Rightarrow> json" where
  "example_product sku frequency unit_cost =
     JDict [(''sku'', JStr sku), (''product_name'', JStr ''Widget''), (''frequency'', frequency),
            (''category'', JStr ''Tools''),
            (''dimensions_cm'', JDict [(''length'', JInt 10), (''width'', JInt 5), (''height'', JInt 2)]),
            (''weight_kg'', JFloat (5 / 10)), (''unit_cost'', unit_cost)]"




definition zero_frequency_input :: json where
  "zero_frequency_input = JList [example_product ''SKU-1'' (JInt 0) (JInt 10)]"

definition bad_records :: "json list" where
  "bad_records =
     [JDict [(''sku'', JStr ''SKU-9''), (''frequency'', JStr ''often'')],
      JNull,
      JDict [(''frequency'', JInt (- 3))]]"



definition shuffled_products :: "json list" where
  "shuffled_products =
     [example_product ''SKU-3'' (JInt 100) (JInt 2000),
      example_product ''SKU-1'' (JInt 50) (JInt 10),
      example_product ''SKU-2'' (JInt 10) (JInt 0)]"

definition shuffled_environment :: environment where
  "shuffled_environment =
     \<lparr>input_file = Decoded (JList shuffled_products), repr_of = (\<lambda>v. ''?''), write_error = None\<rparr>"

section \<open>Raising computations\<close>

lemma bnd_Inl [simp]: "bnd (Inl e) f = Inl e"
  by (simp add: bnd_def)

lemma bnd_Inr [simp]: "bnd (Inr v) f = f v"
  by (simp add: bnd_def)

lemma bnd_eq_Inr: "bnd m f = Inr y \<longleftrightarrow> (\<exists>x. m = Inr x \<and> f x = Inr y)"
  by (cases m) simp_all

lemma sum_from_Inr:
  "(\<And>x. x \<in> set xs \<Longrightarrow> f x = Inr (g x)) \<Longrightarrow>
   sum_from f acc xs = Inr (acc + sum_list (map g xs))"
  by (induction xs arbitrary: acc) (simp_all add: add.assoc)

lemma py_sum_Inr:
  "(\<And>x. x \<in> set xs \<Longrightarrow> f x = Inr (g x)) \<Longrightarrow> py_sum f xs = Inr (sum_list (map g xs))"
  by (simp add: py_sum_def sum_from_Inr)

lemma map_raise_Inr:
  "(\<And>x. x \<in> set xs \<Longrightarrow> f x = Inr (g x)) \<Longrightarrow> map_raise f xs = Inr (map g xs)"
  by (induction xs) simp_all

lemma map_raise_eq_Inr:
  "map_raise f xs = Inr ys \<Longrightarrow> ys = map (\<lambda>x. case f x of Inr y \<Rightarrow> y | Inl e \<Rightarrow> d) xs"
proof (induction xs arbitrary: ys)
  case Nil
  then show ?case by simp
next
  case (Cons x xs)
  from Cons.prems obtain y zs where "f x = Inr y" "map_raise f xs = Inr zs" "ys = y # zs"
    by (auto simp: bnd_eq_Inr)
  with Cons.IH [of zs] show ?case by simp
qed

section \<open>The validator\<close>

subsection \<open>The errors of a list are the errors of its records\<close>

lemma check_keys_append:
  "check_keys d i keys errors = errors @ check_keys d i keys []"
proof (induction keys arbitrary: errors)
  case Nil
  show ?case by simp
next
  case (Cons key keys)
  show ?case
    using Cons.IH [of "errors @ [missing_msg i key]"] Cons.IH [of "[missing_msg i key]"]
      Cons.IH [of errors]
    by simp
qed

lemma validate_numerical_fields_append:
  "validate_numerical_fields repr d i errors = errors @ validate_numerical_fields repr d i []"
  by (simp add: validate_numerical_fields_def Let_def)

lemma check_products_from_Cons:
  "check_products_from repr i (p # rest) errors =
     check_products_from repr (Suc i) rest (errors @ record_errors repr i p)"
proof (cases p)
  case (JDict d)
  have "validate_numerical_fields repr d i (check_keys d i required_keys errors) =
        errors @ validate_numerical_fields repr d i (check_keys d i required_keys [])"
    using validate_numerical_fields_append [of repr d i "check_keys d i required_keys errors"]
      validate_numerical_fields_append [of repr d i "check_keys d i required_keys []"]
      check_keys_append [of d i required_keys errors]
    by simp
  with JDict show ?thesis by (simp add: record_errors_def)
qed (simp_all add: record_errors_def)

lemma check_products_from_concat:
  "check_products_from repr i ps errors =
     errors @ concat (map (\<lambda>(j, p). record_errors repr j p) (zip [i..<i + length ps] ps))"
proof (induction ps arbitrary: i errors)
  case Nil
  show ?case by simp
next
  case (Cons p ps)
  have "[i..<i + length (p # ps)] = i # [Suc i..<Suc i + length ps]"
    by (simp add: upt_rec)
  then show ?case
    by (simp only: check_products_from_Cons Cons.IH) simp
qed

lemma check_products_from_append:
  "check_products_from repr i (xs @ ys) errors =
     check_products_from repr (i + length xs) ys (check_products_from repr i xs errors)"
proof (induction xs arbitrary: i errors)
  case Nil
  show ?case by simp
next
  case (Cons x xs)
  show ?case
    using Cons.IH [of "Suc i"] by (simp only: append_Cons check_products_from_Cons) simp
qed

lemma check_products_from_errors:
  "check_products_from repr i ps errors = errors @ check_products_from repr i ps []"
  using check_products_from_concat [of repr i ps errors] check_products_from_concat [of repr i ps "[]"]
  by simp

lemma check_keys_Nil_iff: "check_keys d i keys [] = [] \<longleftrightarrow> list_all (has_key d) keys"
proof (induction keys)
  case Nil
  show ?case by simp
next
  case (Cons key keys)
  show ?case
    using Cons.IH check_keys_append [of d i keys "[missing_msg i key]"]
    by simp
qed

lemma record_errors_Nil_iff: "record_errors repr i p = [] \<longleftrightarrow> valid_product p"
proof (cases p)
  case (JDict d)
  have "record_errors repr i p =
        check_keys d i required_keys [] @ validate_numerical_fields repr d i []"
    using JDict validate_numerical_fields_append [of repr d i "check_keys d i required_keys []"]
    by (simp add: record_errors_def)
  moreover have "validate_numerical_fields repr d i [] = [] \<longleftrightarrow>
      number_ge0 (dict_get d ''frequency'' (JInt (- 1)))
      \<and> number_ge0 (dict_get d ''unit_cost'' (JInt (- 1)))
      \<and> number_ge0 (dict_get d ''weight_kg'' (JInt (- 1)))
      \<and> dims_ok (dict_get d ''dimensions_cm'' (JDict []))"
    by (simp add: validate_numerical_fields_def Let_def)
  ultimately show ?thesis
    using JDict check_keys_Nil_iff [of d i required_keys] by simp
qed (simp_all add: record_errors_def)

lemma check_products_from_Nil_iff:
  "check_products_from repr i ps [] = [] \<longleftrightarrow> list_all valid_product ps"
proof (induction ps arbitrary: i)
  case Nil
  show ?case by simp
next
  case (Cons p ps)
  show ?case
    using Cons.IH [of "Suc i"] check_products_from_concat [of repr "Suc i" ps "record_errors repr i p"]
      check_products_from_concat [of repr "Suc i" ps "[]"]
    by (simp add: check_products_from_Cons record_errors_Nil_iff del: check_products_from.simps)
qed

lemma record_errors_dict:
  "record_errors repr i (JDict d) =
     check_keys d i required_keys [] @ validate_numerical_fields repr d i []"
  using validate_numerical_fields_append [of repr d i "check_keys d i required_keys []"]
  by (simp add: record_errors_def)

lemma record_errors_not_dict:
  "\<not> is_dict p \<Longrightarrow> record_errors repr i p = [not_dict_msg i]"
  by (cases p) (simp_all add: record_errors_def)

lemma invalid_frequency_reported:
  "\<not> number_ge0 (dict_get d ''frequency'' (JInt (- 1))) \<Longrightarrow>
   invalid_msg repr ''frequency'' d i \<in> set (validate_numerical_fields repr d i [])"
  by (simp add: validate_numerical_fields_def Let_def)

lemma record_errors_in_all:
  assumes "i < length ps" and "e \<in> set (record_errors repr i (ps ! i))"
  shows "e \<in> set (concat (map (\<lambda>(i, p). record_errors repr i p) (enumerate_from0 ps)))"
proof -
  have "(i, ps ! i) \<in> set (enumerate_from0 ps)"
    using assms(1) by (auto simp: enumerate_from0_def in_set_zip intro!: exI [of _ i])
  with assms(2) show ?thesis by force
qed

lemma validate_all_list:
  "validate_all repr (JList ps) = Inr (check_products_from repr 0 ps [])"
  by (simp add: validate_all_def check_overall_format_def check_product_fields_def)

lemma validate_all_list_concat:
  "validate_all repr (JList ps) =
     Inr (concat (map (\<lambda>(i, p). record_errors repr i p) (enumerate_from0 ps)))"
  using check_products_from_concat [of repr 0 ps "[]"]
  by (simp add: validate_all_list enumerate_from0_def)

lemma validate_all_not_list:
  "\<not> is_list data \<Longrightarrow>
   validate_all repr data = Inr [''Invalid data format: Expected a JSON list.'']"
  by (simp add: validate_all_def check_overall_format_def)

lemma validate_all_Inr: "\<exists>errors. validate_all repr data = Inr errors"
  by (cases "is_list data"; cases data) (simp_all add: validate_all_list validate_all_not_list)

lemma validate_all_Nil_is_list:
  "validate_all repr data = Inr [] \<Longrightarrow> is_list data"
  by (cases "is_list data") (simp_all add: validate_all_not_list)

lemma validate_all_Nil_iff:
  "validate_all repr (JList ps) = Inr [] \<longleftrightarrow> list_all valid_product ps"
  by (simp add: validate_all_list check_products_from_Nil_iff)

subsection \<open>Claims C4, C5 and C9\<close>

text \<open>
  Claim C4. For every input whose top level is not a list, \<^verbatim>\<open>validate_all\<close> returns
  exactly one error, the format error of the top level, and no error of a record; the
  checks of the records, \<^verbatim>\<open>_check_product_fields\<close>, run only when the top level is a
  list.
\<close>

theorem validate_all_container_check:
  "(\<not> is_list data \<longrightarrow>
      validate_all repr data = Inr [''Invalid data format: Expected a JSON list.''])
   \<and> (is_list data \<longrightarrow> validate_all repr data = check_product_fields repr data [])"
  by (simp add: validate_all_def check_overall_format_def)

theorem validate_all_container_check_witness:
  "\<not> is_list (JDict [(''sku'', JStr ''SKU-1'')])
   \<and> validate_all (\<lambda>v. ''?'') (JDict [(''sku'', JStr ''SKU-1'')])
       = Inr [''Invalid data format: Expected a JSON list.'']
   \<and> is_list (JList [JNull])
   \<and> validate_all (\<lambda>v. ''?'') (JList [JNull]) = Inr [''Product at index 0 is not a dictionary.'']"
  using validate_all_container_check [of "JDict [(''sku'', JStr ''SKU-1'')]" "\<lambda>v. ''?''"]
    validate_all_container_check [of "JList [JNull]" "\<lambda>v. ''?''"]
  by (simp add: check_product_fields_def not_dict_msg_def)

text \<open>
  Claim C5. For every list input the errors of \<^verbatim>\<open>validate_all\<close> are the errors of
  each record, one record after the other: no record is skipped after a bad one. A
  record (a dictionary at position \<open>i\<close>) whose \<^verbatim>\<open>frequency\<close> is missing, not a
  number or negative yields the message
  \<^verbatim>\<open>Invalid 'frequency' for SKU '<sku>' at index <i>.\<close>, where \<^verbatim>\<open><sku>\<close> is the text
  of the record's SKU, or \<^verbatim>\<open>N/A\<close> when the record has no SKU.
\<close>

theorem validate_all_accumulates:
  "validate_all repr (JList ps) =
     Inr (concat (map (\<lambda>(i, p). record_errors repr i p) (enumerate_from0 ps)))
   \<and> (\<forall>i d. i < length ps \<and> ps ! i = JDict d
         \<and> (map_of d ''frequency'' = None
             \<or> (\<exists>v. map_of d ''frequency'' = Some v \<and> \<not> (is_number v \<and> 0 \<le> num_val v))) \<longrightarrow>
         (\<exists>errors. validate_all repr (JList ps) = Inr errors
            \<and> (''Invalid '' @ [CHR 0x27] @ ''frequency'' @ [CHR 0x27] @ '' for SKU '' @ [CHR 0x27]
                 @ (case map_of d ''sku'' of None \<Rightarrow> ''N/A'' | Some sku \<Rightarrow> py_str repr sku)
                 @ [CHR 0x27] @ '' at index '' @ show_nat i @ ''.'') \<in> set errors))"
proof (intro conjI allI impI)
  show "validate_all repr (JList ps) =
     Inr (concat (map (\<lambda>(i, p). record_errors repr i p) (enumerate_from0 ps)))"
    by (rule validate_all_list_concat)
next
  fix i d
  assume h: "i < length ps \<and> ps ! i = JDict d
         \<and> (map_of d ''frequency'' = None
             \<or> (\<exists>v. map_of d ''frequency'' = Some v \<and> \<not> (is_number v \<and> 0 \<le> num_val v)))"
  then have bad: "\<not> number_ge0 (dict_get d ''frequency'' (JInt (- 1)))"
    by (auto simp: dict_get_def number_ge0_def)
  have msg: "invalid_msg repr ''frequency'' d i =
        ''Invalid '' @ [CHR 0x27] @ ''frequency'' @ [CHR 0x27] @ '' for SKU '' @ [CHR 0x27]
          @ (case map_of d ''sku'' of None \<Rightarrow> ''N/A'' | Some sku \<Rightarrow> py_str repr sku)
          @ [CHR 0x27] @ '' at index '' @ show_nat i @ ''.''"
    by (simp add: invalid_msg_def dict_get_def split: option.split)
  have i: "i < length ps" using h by simp
  have "invalid_msg repr ''frequency'' d i \<in> set (record_errors repr i (ps ! i))"
    using h invalid_frequency_reported [OF bad, of repr i] by (simp add: record_errors_dict)
  with i have "invalid_msg repr ''frequency'' d i
      \<in> set (concat (map (\<lambda>(i, p). record_errors repr i p) (enumerate_from0 ps)))"
    by (rule record_errors_in_all)
  then show "\<exists>errors. validate_all repr (JList ps) = Inr errors
            \<and> (''Invalid '' @ [CHR 0x27] @ ''frequency'' @ [CHR 0x27] @ '' for SKU '' @ [CHR 0x27]
                 @ (case map_of d ''sku'' of None \<Rightarrow> ''N/A'' | Some sku \<Rightarrow> py_str repr sku)
                 @ [CHR 0x27] @ '' at index '' @ show_nat i @ ''.'') \<in> set errors"
    by (simp only: validate_all_list_concat msg) blast
qed

theorem validate_all_accumulates_witness:
  "\<exists>errors. validate_all (\<lambda>v. ''?'') (JList bad_records) = Inr errors
     \<and> (''Invalid '' @ [CHR 0x27] @ ''frequency'' @ [CHR 0x27] @ '' for SKU '' @ [CHR 0x27]
          @ ''SKU-9'' @ [CHR 0x27] @ '' at index 0.'') \<in> set errors
     \<and> ''Product at index 1 is not a dictionary.'' \<in> set errors
     \<and> (''Invalid '' @ [CHR 0x27] @ ''frequency'' @ [CHR 0x27] @ '' for SKU '' @ [CHR 0x27]
          @ ''N/A'' @ [CHR 0x27] @ '' at index 2.'') \<in> set errors"
proof -
  note t = validate_all_accumulates [of "\<lambda>v. ''?''" bad_records]
  from t have a: "\<exists>errors. validate_all (\<lambda>v. ''?'') (JList bad_records) = Inr errors
     \<and> (''Invalid '' @ [CHR 0x27] @ ''frequency'' @ [CHR 0x27] @ '' for SKU '' @ [CHR 0x27]
          @ ''SKU-9'' @ [CHR 0x27] @ '' at index 0.'') \<in> set errors"
    by (auto simp: bad_records_def dest!: spec [of _ 0])
  from t have b: "\<exists>errors. validate_all (\<lambda>v. ''?'') (JList bad_records) = Inr errors
     \<and> (''Invalid '' @ [CHR 0x27] @ ''frequency'' @ [CHR 0x27] @ '' for SKU '' @ [CHR 0x27]
          @ ''N/A'' @ [CHR 0x27] @ '' at index 2.'') \<in> set errors"
    by (auto simp: bad_records_def dest!: spec [of _ 2])
  from t have c: "\<exists>errors. validate_all (\<lambda>v. ''?'') (JList bad_records) = Inr errors
     \<and> ''Product at index 1 is not a dictionary.'' \<in> set errors"
    by (simp add: bad_records_def enumerate_from0_def record_errors_def not_dict_msg_def
          upt_rec)
  from a b c show ?thesis by auto
qed

text \<open>
  Claim C9. \<^verbatim>\<open>validate_all\<close> returns a list of errors for every decoded value and
  never raises. In a list, an element that is not a dictionary contributes exactly the
  one error that says so; the checks of the fields are not run on it, and the records
  before and after it are checked as usual.
\<close>

theorem validate_all_total:
  "(\<exists>errors. validate_all repr data = Inr errors)
   \<and> (\<forall>xs p ys. \<not> is_dict p \<longrightarrow>
        validate_all repr (JList (xs @ p # ys)) =
          Inr (check_products_from repr 0 xs []
               @ [''Product at index '' @ show_nat (length xs) @ '' is not a dictionary.'']
               @ check_products_from repr (Suc (length xs)) ys []))"
proof (intro conjI allI impI)
  show "\<exists>errors. validate_all repr data = Inr errors"
  proof (cases data)
    case (JList ps)
    then show ?thesis by (simp add: validate_all_list)
  qed (simp_all add: validate_all_not_list)
next
  fix xs p ys
  assume p: "\<not> is_dict p"
  have "check_products_from repr 0 (xs @ p # ys) [] =
        check_products_from repr (Suc (length xs)) ys
          (check_products_from repr 0 xs [] @ record_errors repr (length xs) p)"
    by (simp only: check_products_from_append check_products_from_Cons) simp
  also have "\<dots> = check_products_from repr 0 xs [] @ record_errors repr (length xs) p
       @ check_products_from repr (Suc (length xs)) ys []"
    using check_products_from_errors
      [of repr "Suc (length xs)" ys "check_products_from repr 0 xs [] @ record_errors repr (length xs) p"]
    by simp
  finally show "validate_all repr (JList (xs @ p # ys)) =
          Inr (check_products_from repr 0 xs []
               @ [''Product at index '' @ show_nat (length xs) @ '' is not a dictionary.'']
               @ check_products_from repr (Suc (length xs)) ys [])"
    using p by (simp add: validate_all_list record_errors_not_dict not_dict_msg_def)
qed

theorem validate_all_total_witness:
  "(\<exists>errors. validate_all (\<lambda>v. ''?'') (JInt 3) = Inr errors)
   \<and> \<not> is_dict (JStr ''x'')
   \<and> validate_all (\<lambda>v. ''?'')
        (JList ([example_product ''SKU-1'' (JInt 7) (JInt 3)] @ JStr ''x'' # [])) =
       Inr [''Product at index 1 is not a dictionary.'']"
proof -
  have v: "check_products_from (\<lambda>v. ''?'') 0 [example_product ''SKU-1'' (JInt 7) (JInt 3)] [] = []"
    by (subst check_products_from_Nil_iff)
      (simp add: example_product_def required_keys_def has_key_def dict_get_def number_ge0_def)
  note t = validate_all_total [of "\<lambda>v. ''?''" "JInt 3"]
  from t have e: "\<exists>errors. validate_all (\<lambda>v. ''?'') (JInt 3) = Inr errors"
    by (rule conjunct1)
  have n: "\<not> is_dict (JStr ''x'')" by simp
  from t n have "validate_all (\<lambda>v. ''?'')
        (JList ([example_product ''SKU-1'' (JInt 7) (JInt 3)] @ JStr ''x'' # [])) =
      Inr (check_products_from (\<lambda>v. ''?'') 0 [example_product ''SKU-1'' (JInt 7) (JInt 3)] []
           @ [''Product at index ''
              @ show_nat (length [example_product ''SKU-1'' (JInt 7) (JInt 3)])
              @ '' is not a dictionary.'']
           @ check_products_from (\<lambda>v. ''?'')
               (Suc (length [example_product ''SKU-1'' (JInt 7) (JInt 3)])) [] [])"
    by blast
  then have "validate_all (\<lambda>v. ''?'')
        (JList ([example_product ''SKU-1'' (JInt 7) (JInt 3)] @ JStr ''x'' # [])) =
       Inr [''Product at index 1 is not a dictionary.'']"
    by (simp only: v) simp
  with e n show ?thesis by (simp only: simp_thms)
qed

section \<open>The classifier\<close>

subsection \<open>What validation gives\<close>

lemma has_key_required:
  "list_all (has_key d) required_keys \<Longrightarrow> key \<in> set required_keys \<Longrightarrow> \<exists>v. map_of d key = Some v"
  by (auto simp: list_all_iff has_key_def)

lemma valid_product_frequency:
  assumes "valid_product p"
  shows "frequency_of p = Inr (freq p)" and "0 \<le> freq p"
proof -
  from assms obtain d where p: "p = JDict d" by (cases p) simp_all
  from assms p obtain v where v: "map_of d ''frequency'' = Some v"
    using has_key_required [of d "''frequency''"] by (auto simp: required_keys_def)
  from assms p v have n: "is_number v" "0 \<le> num_val v"
    by (simp_all add: dict_get_def number_ge0_def)
  from p v n have f: "frequency_of p = Inr (num_val v)"
    by (simp add: frequency_of_def as_num_def)
  then show "frequency_of p = Inr (freq p)" by (simp add: freq_def)
  from f n show "0 \<le> freq p" by (simp add: freq_def)
qed

lemma valid_product_fields:
  assumes "valid_product p"
  shows "\<exists>D. subscript p ''frequency'' = Inr D \<and> as_num D = Inr (freq p)"
    and "\<exists>c. subscript p ''unit_cost'' = Inr c \<and> as_num c = Inr (cost p)"
    and "0 \<le> cost p"
    and "\<exists>k. subscript p ''sku'' = Inr k"
proof -
  from assms obtain d where p: "p = JDict d" by (cases p) simp_all
  from assms p obtain v where v: "map_of d ''frequency'' = Some v"
    using has_key_required [of d "''frequency''"] by (auto simp: required_keys_def)
  from assms p obtain c where c: "map_of d ''unit_cost'' = Some c"
    using has_key_required [of d "''unit_cost''"] by (auto simp: required_keys_def)
  from assms p obtain k where k: "map_of d ''sku'' = Some k"
    using has_key_required [of d "''sku''"] by (auto simp: required_keys_def)
  from assms p v have nv: "is_number v"
    by (simp add: dict_get_def number_ge0_def)
  from assms p c have nc: "is_number c" "0 \<le> num_val c"
    by (simp_all add: dict_get_def number_ge0_def)
  from p v nv show "\<exists>D. subscript p ''frequency'' = Inr D \<and> as_num D = Inr (freq p)"
    by (simp add: freq_def frequency_of_def as_num_def)
  from p c nc show "\<exists>c. subscript p ''unit_cost'' = Inr c \<and> as_num c = Inr (cost p)"
    by (simp add: cost_def as_num_def)
  from p c nc show "0 \<le> cost p"
    by (simp add: cost_def as_num_def)
  from p k show "\<exists>k. subscript p ''sku'' = Inr k" by simp
qed

lemma valid_product_sku:
  "valid_product p \<Longrightarrow> subscript p ''sku'' = Inr (sku_of p)"
  using valid_product_fields(4) [of p] by (auto simp: sku_of_def)



subsection \<open>Sorting by a key\<close>

lemma insort_key_map:
  "insort_key k (h x) (map h xs) = map h (insort_key (\<lambda>y. k (h y)) x xs)"
  by (induction xs) simp_all

lemma sort_key_map:
  "sort_key k (map h xs) = map h (sort_key (\<lambda>y. k (h y)) xs)"
  by (induction xs) (simp_all add: insort_key_map)



lemma zip_keys: "zip (map k ps) ps = map (\<lambda>p. (k p, p)) ps"
  by (induction ps) simp_all

lemma sorted_by_key_zip:
  "map snd (sort_key (\<lambda>kp. g (fst kp)) (zip (map k ps) ps)) = sort_key (\<lambda>p. g (k p)) ps"
  by (simp add: zip_keys sort_key_map [of _ "\<lambda>p. (k p, p)"] comp_def)

lemma sorted_desc_sort_key:
  "sorted_wrt (\<lambda>p q. k q \<le> k p) (sort_key (\<lambda>p. - k p) (ps :: 'a list))" for k :: "'a \<Rightarrow> real"
proof -
  have "sorted (map (\<lambda>p. - k p) (sort_key (\<lambda>p. - k p) ps))"
    by (rule sorted_sort_key)
  then show ?thesis
    by (simp add: sorted_map)
qed

lemma sorted_wrt_nths:
  assumes "sorted_wrt R xs"
  shows "sorted_wrt R (map (nth xs) (filter P [0..<length xs]))"
proof -
  have "sorted_wrt (<) (filter P [0..<length xs])"
    by (rule sorted_wrt_filter) simp
  moreover have "\<And>i j. i \<in> set (filter P [0..<length xs]) \<Longrightarrow> j \<in> set (filter P [0..<length xs])
      \<Longrightarrow> i < j \<Longrightarrow> R (xs ! i) (xs ! j)"
    using sorted_wrt_nth_less [OF assms] by simp
  ultimately have "sorted_wrt (\<lambda>i j. R (xs ! i) (xs ! j)) (filter P [0..<length xs])"
    by (rule sorted_wrt_mono_rel [rotated])
  then show ?thesis by (simp add: sorted_wrt_map)
qed

lemma sorted_by_frequency_desc_Inr:
  assumes "\<And>p. p \<in> set ps \<Longrightarrow> frequency_of p = Inr (freq p)"
  shows "sorted_by_frequency_desc ps = Inr (sort_key (\<lambda>p. - freq p) ps)"
proof -
  have z: "zip (map freq ps) ps = map (\<lambda>p. (freq p, p)) ps"
    by (induction ps) simp_all
  have "map snd (sort_key (\<lambda>kp. - fst kp) (zip (map freq ps) ps)) = sort_key (\<lambda>p. - freq p) ps"
    by (simp add: z sort_key_map [of _ "\<lambda>p. (freq p, p)"] comp_def)
  with assms show ?thesis
    by (simp add: sorted_by_frequency_desc_def map_raise_Inr [of ps frequency_of freq])
qed

subsection \<open>The loop over the sorted products\<close>

lemma length_running_shares [simp]: "length (running_shares tot cur fs) = length fs"
  by (induction fs arbitrary: cur) simp_all

lemma running_shares_nth:
  "i < length fs \<Longrightarrow> running_shares tot cur fs ! i = cur + sum_list (take (Suc i) fs) / tot"
proof (induction fs arbitrary: cur i)
  case Nil
  then show ?case by simp
next
  case (Cons f fs)
  show ?case
  proof (cases i)
    case 0
    then show ?thesis by simp
  next
    case (Suc j)
    with Cons.prems have "j < length fs" by simp
    from Cons.IH [OF this, of "cur + f / tot"] Suc show ?thesis
      by (simp add: add_divide_distrib)
  qed
qed

lemma abc_loop_zip:
  assumes "\<And>p. p \<in> set sp \<Longrightarrow> frequency_of p = Inr (freq p)" and "tot \<noteq> 0"
  shows "abc_loop tot sp cur (a, b, c) =
     Inr (a @ map fst (filter (\<lambda>ps. snd ps \<le> A_CATEGORY_PERCENTAGE)
                 (zip sp (running_shares tot cur (map freq sp)))),
          b @ map fst (filter (\<lambda>ps. \<not> snd ps \<le> A_CATEGORY_PERCENTAGE \<and> snd ps \<le> B_CATEGORY_PERCENTAGE)
                 (zip sp (running_shares tot cur (map freq sp)))),
          c @ map fst (filter (\<lambda>ps. \<not> snd ps \<le> A_CATEGORY_PERCENTAGE \<and> \<not> snd ps \<le> B_CATEGORY_PERCENTAGE)
                 (zip sp (running_shares tot cur (map freq sp)))))"
  using assms(1)
proof (induction sp arbitrary: cur a b c)
  case Nil
  show ?case by simp
next
  case (Cons p sp)
  have f: "frequency_of p = Inr (freq p)" using Cons.prems by simp
  have rest: "\<And>q. q \<in> set sp \<Longrightarrow> frequency_of q = Inr (freq q)" using Cons.prems by simp
  show ?case
    using assms(2) by (simp add: f py_div_def Let_def Cons.IH [OF rest])
qed

lemma zip_filter_nth:
  assumes "length xs = length ys"
  shows "map fst (filter (\<lambda>z. P (snd z)) (zip xs ys)) =
         map (nth xs) (filter (\<lambda>i. P (ys ! i)) [0..<length xs])"
proof -
  have z: "zip xs ys = map (\<lambda>i. (xs ! i, ys ! i)) [0..<length xs]"
    using assms by (intro nth_equalityI) simp_all
  have "map fst (filter (\<lambda>z. P (snd z)) (map (\<lambda>i. (xs ! i, ys ! i)) [0..<length xs])) =
        map (nth xs) (filter (\<lambda>i. P (ys ! i)) [0..<length xs])"
    by (simp add: filter_map comp_def)
  with z show ?thesis by (simp only:)
qed

lemma shares_filter:
  "map fst (filter (\<lambda>z. P (snd z)) (zip sp (running_shares tot 0 (map freq sp)))) =
   map (nth sp) (filter (\<lambda>i. P (cumulative_share tot sp i)) [0..<length sp])"
proof -
  have "filter (\<lambda>i. P (running_shares tot 0 (map freq sp) ! i)) [0..<length sp] =
        filter (\<lambda>i. P (cumulative_share tot sp i)) [0..<length sp]"
    by (rule filter_cong) (simp_all add: running_shares_nth cumulative_share_def take_map)
  then show ?thesis
    using zip_filter_nth [of sp "running_shares tot 0 (map freq sp)" P] by simp
qed

lemma abc_loop_buckets:
  assumes "\<And>p. p \<in> set sp \<Longrightarrow> frequency_of p = Inr (freq p)" and "tot \<noteq> 0"
  shows "abc_loop tot sp 0 ([], [], []) =
     Inr (map (nth sp) (bucket_a tot sp), map (nth sp) (bucket_b tot sp),
          map (nth sp) (bucket_c tot sp))"
proof -
  have z: "abc_loop tot sp 0 ([], [], []) =
     Inr ([] @ map fst (filter (\<lambda>ps. snd ps \<le> A_CATEGORY_PERCENTAGE)
                 (zip sp (running_shares tot 0 (map freq sp)))),
          [] @ map fst (filter (\<lambda>ps. \<not> snd ps \<le> A_CATEGORY_PERCENTAGE \<and> snd ps \<le> B_CATEGORY_PERCENTAGE)
                 (zip sp (running_shares tot 0 (map freq sp)))),
          [] @ map fst (filter (\<lambda>ps. \<not> snd ps \<le> A_CATEGORY_PERCENTAGE \<and> \<not> snd ps \<le> B_CATEGORY_PERCENTAGE)
                 (zip sp (running_shares tot 0 (map freq sp)))))"
    using assms by (rule abc_loop_zip)
  show ?thesis
    using shares_filter [where P = "\<lambda>x. x \<le> A_CATEGORY_PERCENTAGE" and sp = sp and tot = tot]
      shares_filter [where P = "\<lambda>x. \<not> x \<le> A_CATEGORY_PERCENTAGE \<and> x \<le> B_CATEGORY_PERCENTAGE" and sp = sp and tot = tot]
      shares_filter [where P = "\<lambda>x. \<not> x \<le> A_CATEGORY_PERCENTAGE \<and> \<not> x \<le> B_CATEGORY_PERCENTAGE" and sp = sp and tot = tot]
    by (simp add: z bucket_a_def bucket_b_def bucket_c_def)
qed



lemma three_way_filter_mset:
  "mset (filter P xs) + mset (filter (\<lambda>x. \<not> P x \<and> Q x) xs)
     + mset (filter (\<lambda>x. \<not> P x \<and> \<not> Q x) xs) = mset xs"
  by (induction xs) auto

lemma buckets_mset:
  "mset (bucket_a tot sp @ bucket_b tot sp @ bucket_c tot sp) = mset [0..<length sp]"
  using three_way_filter_mset
    [of "\<lambda>i. cumulative_share tot sp i \<le> A_CATEGORY_PERCENTAGE" "[0..<length sp]"
        "\<lambda>i. cumulative_share tot sp i \<le> B_CATEGORY_PERCENTAGE"]
  by (simp add: bucket_a_def bucket_b_def bucket_c_def add.assoc)

lemma buckets_mset_products:
  "mset (map (nth sp) (bucket_a tot sp) @ map (nth sp) (bucket_b tot sp)
         @ map (nth sp) (bucket_c tot sp)) = mset sp"
proof -
  have "mset (map (nth sp) (bucket_a tot sp) @ map (nth sp) (bucket_b tot sp)
         @ map (nth sp) (bucket_c tot sp))
      = image_mset (nth sp) (mset (bucket_a tot sp @ bucket_b tot sp @ bucket_c tot sp))"
    by simp
  also have "\<dots> = mset (map (nth sp) [0..<length sp])"
    by (simp only: buckets_mset mset_map)
  also have "\<dots> = mset sp"
    by (simp only: map_nth)
  finally show ?thesis .
qed

lemma buckets_sorted:
  assumes "sorted_wrt R sp"
  shows "sorted_wrt R (map (nth sp) (bucket_a tot sp))"
    and "sorted_wrt R (map (nth sp) (bucket_b tot sp))"
    and "sorted_wrt R (map (nth sp) (bucket_c tot sp))"
  unfolding bucket_a_def bucket_b_def bucket_c_def
  by (rule sorted_wrt_nths [OF assms])+



lemma run_abc_analysis_valid:
  assumes valid: "list_all valid_product (products s)"
    and nonempty: "products s \<noteq> []"
    and tot: "sum_list (map freq (products s)) \<noteq> 0"
  shows "run_abc_analysis s =
     Inr (s\<lparr>categories :=
       [(''categoryA'', map (nth (sort_key (\<lambda>p. - freq p) (products s)))
            (bucket_a (sum_list (map freq (products s))) (sort_key (\<lambda>p. - freq p) (products s)))),
        (''categoryB'', map (nth (sort_key (\<lambda>p. - freq p) (products s)))
            (bucket_b (sum_list (map freq (products s))) (sort_key (\<lambda>p. - freq p) (products s)))),
        (''categoryC'', map (nth (sort_key (\<lambda>p. - freq p) (products s)))
            (bucket_c (sum_list (map freq (products s))) (sort_key (\<lambda>p. - freq p) (products s))))]\<rparr>)"
proof -
  have f: "\<And>p. p \<in> set (products s) \<Longrightarrow> frequency_of p = Inr (freq p)"
    using valid valid_product_frequency(1) by (simp add: list_all_iff)
  then have f': "\<And>p. p \<in> set (sort_key (\<lambda>p. - freq p) (products s)) \<Longrightarrow> frequency_of p = Inr (freq p)"
    by simp
  have sum: "py_sum frequency_of (products s) = Inr (sum_list (map freq (products s)))"
    using f by (rule py_sum_Inr)
  have loop: "abc_loop (sum_list (map freq (products s)))
        (sort_key (\<lambda>p. - freq p) (products s)) 0 ([], [], []) =
      Inr (map (nth (sort_key (\<lambda>p. - freq p) (products s)))
            (bucket_a (sum_list (map freq (products s))) (sort_key (\<lambda>p. - freq p) (products s))),
           map (nth (sort_key (\<lambda>p. - freq p) (products s)))
            (bucket_b (sum_list (map freq (products s))) (sort_key (\<lambda>p. - freq p) (products s))),
           map (nth (sort_key (\<lambda>p. - freq p) (products s)))
            (bucket_c (sum_list (map freq (products s))) (sort_key (\<lambda>p. - freq p) (products s))))"
    using f' tot by (rule abc_loop_buckets)
  show ?thesis
    using nonempty tot
    by (simp add: run_abc_analysis_def sum sorted_by_frequency_desc_Inr [OF f] loop)
qed

lemma run_abc_analysis_zero:
  assumes "list_all valid_product (products s)" and "products s \<noteq> []"
    and "sum_list (map freq (products s)) = 0"
  shows "run_abc_analysis s =
     Inr (print ''Total frequency is zero. Analysis cannot be performed.'' s)"
proof -
  have f: "\<And>p. p \<in> set (products s) \<Longrightarrow> frequency_of p = Inr (freq p)"
    using assms(1) valid_product_frequency(1) by (simp add: list_all_iff)
  have "py_sum frequency_of (products s) = Inr (sum_list (map freq (products s)))"
    using f by (rule py_sum_Inr)
  with assms(2,3) show ?thesis by (simp add: run_abc_analysis_def)
qed

subsection \<open>Claims C2, C3 and C10\<close>







section \<open>Inventory metrics\<close>

lemma inventory_entry_of_valid:
  assumes "valid_product p"
  shows "inventory_entry_of p =
     Inr \<lparr>eoq = (if 0 < cost p then \<lceil>sqrt (2 * freq p * 50 / (cost p * (15 / 100)))\<rceil> else 0),
          safety_stock = \<lceil>(1645 / 1000) * (freq p / 365 * (2 / 10)) * sqrt 7\<rceil>\<rparr>"
proof -
  from valid_product_fields(1) [OF assms] obtain D
    where D: "subscript p ''frequency'' = Inr D" "as_num D = Inr (freq p)" by blast
  from valid_product_fields(2) [OF assms] obtain c
    where c: "subscript p ''unit_cost'' = Inr c" "as_num c = Inr (cost p)" by blast
  have f: "frequency_of p = Inr (freq p)" "0 \<le> freq p"
    using valid_product_frequency [OF assms] by simp_all
  have c0: "0 \<le> cost p" by (rule valid_product_fields(3) [OF assms])
  show ?thesis
  proof (cases "0 < cost p")
    case True
    then have "0 \<le> 2 * freq p * 50 / (cost p * (15 / 100))"
      using f(2) by simp
    then have "py_sqrt (2 * freq p * 50 / (cost p * (15 / 100)))
        = Inr (sqrt (2 * freq p * 50 / (cost p * (15 / 100))))"
      by (simp only: py_sqrt_def not_less [symmetric] if_False)
    with True show ?thesis
      by (simp add: inventory_entry_of_def D c f(1) Let_def py_div_def COST_PER_ORDER_def
            ANNUAL_HOLDING_COST_PERCENTAGE_def DEMAND_VARIABILITY_FACTOR_def)
  next
    case False
    then show ?thesis
      by (simp add: inventory_entry_of_def D c f(1) Let_def COST_PER_ORDER_def
            ANNUAL_HOLDING_COST_PERCENTAGE_def DEMAND_VARIABILITY_FACTOR_def)
  qed
qed






lemma inventory_loop_hashable:
  "list_all valid_product ps \<Longrightarrow>
   \<forall>p \<in> set ps. \<forall>k. subscript p ''sku'' = Inr k \<longrightarrow> hashable k \<Longrightarrow>
   \<exists>m. inventory_loop ps m0 = Inr m"
proof (induction ps arbitrary: m0)
  case Nil
  show ?case by simp
next
  case (Cons p ps)
  have vp: "valid_product p" and vps: "list_all valid_product ps"
    using Cons.prems(1) by simp_all
  obtain e where e: "inventory_entry_of p = Inr e"
    using inventory_entry_of_valid [OF vp] by blast
  obtain k where k: "subscript p ''sku'' = Inr k"
    using valid_product_fields(4) [OF vp] by blast
  have h: "hashable k" using Cons.prems(2) k by simp
  have "\<forall>q \<in> set ps. \<forall>k. subscript q ''sku'' = Inr k \<longrightarrow> hashable k"
    using Cons.prems(2) by simp
  from Cons.IH [OF vps this, of "dict_store k e m0"] show ?case
    by (simp add: e k h)
qed

subsection \<open>Claim C6\<close>



section \<open>Distance metrics\<close>

lemma sum_list_enumerate:
  "sum_list (map (\<lambda>(i, p). g i p) (enumerate_from0 ps)) = (\<Sum>i<length ps. g i (ps ! i))"
  for g :: "nat \<Rightarrow> 'a \<Rightarrow> real"
proof -
  have z: "enumerate_from0 ps = map (\<lambda>i. (i, ps ! i)) [0..<length ps]"
    unfolding enumerate_from0_def by (intro nth_equalityI) simp_all
  have "sum_list (map (\<lambda>(i, p). g i p) (enumerate_from0 ps)) =
        sum_list (map (\<lambda>i. g i (ps ! i)) [0..<length ps])"
    by (simp add: z comp_def)
  also have "\<dots> = sum (\<lambda>i. g i (ps ! i)) (set [0..<length ps])"
    by (rule sum_set_upt_conv_sum_list_nat [symmetric])
  also have "\<dots> = (\<Sum>i<length ps. g i (ps ! i))"
    by (simp add: atLeast0LessThan)
  finally show ?thesis .
qed

lemma original_distance_sum:
  assumes "\<And>p. p \<in> set ps \<Longrightarrow> frequency_of p = Inr (freq p)"
  shows "py_sum (\<lambda>(i, p). bnd (frequency_of p) (\<lambda>f. Inr (real (i + 1) * 2 * f)))
           (enumerate_from0 ps) =
         Inr (\<Sum>i<length ps. real (i + 1) * 2 * freq (ps ! i))"
proof -
  have "py_sum (\<lambda>(i, p). bnd (frequency_of p) (\<lambda>f. Inr (real (i + 1) * 2 * f)))
           (enumerate_from0 ps) =
        Inr (sum_list (map (\<lambda>(i, p). real (i + 1) * 2 * freq p) (enumerate_from0 ps)))"
  proof (rule py_sum_Inr)
    fix x assume "x \<in> set (enumerate_from0 ps)"
    then have "(fst x, snd x) \<in> set (zip [0..<length ps] ps)"
      by (simp add: enumerate_from0_def)
    then have "snd x \<in> set ps"
      by (rule set_zip_rightD)
    then show "(case x of (i, p) \<Rightarrow> bnd (frequency_of p) (\<lambda>f. Inr (real (i + 1) * 2 * f))) =
        Inr (case x of (i, p) \<Rightarrow> real (i + 1) * 2 * freq p)"
      using assms by (cases x) simp
  qed
  then show ?thesis
    by (simp only: sum_list_enumerate)
qed

lemma zone_sum:
  assumes "\<And>p. p \<in> set xs \<Longrightarrow> frequency_of p = Inr (freq p)"
  shows "py_sum (\<lambda>p. bnd (frequency_of p) (\<lambda>f. Inr (f * z))) xs = Inr (\<Sum>p\<leftarrow>xs. freq p * z)"
  by (rule py_sum_Inr) (simp add: assms)

lemma calculate_distance_metrics_valid:
  assumes "list_all valid_product (products s)"
    and "map_of (categories s) ''categoryA'' = Some a"
    and "map_of (categories s) ''categoryB'' = Some b"
    and "map_of (categories s) ''categoryC'' = Some c"
    and "set a \<union> set b \<union> set c \<subseteq> set (products s)"
    and "original = (\<Sum>i<length (products s). real (i + 1) * 2 * freq (products s ! i))"
    and "optimized = (\<Sum>p\<leftarrow>a. freq p * 5) + (\<Sum>p\<leftarrow>b. freq p * 15) + (\<Sum>p\<leftarrow>c. freq p * 30)"
  shows "calculate_distance_metrics s =
      Inr (s\<lparr>metrics :=
        AList.update ''efficiency_improvement''
          (if 0 < original then (original - optimized) / original * 100 else 0)
          (AList.update ''distance_saved'' (original - optimized)
            (AList.update ''optimized_distance'' optimized
              (AList.update ''original_distance'' original (metrics s))))\<rparr>)"
    and "0 \<le> original"
proof -
  have f: "\<And>p. p \<in> set (products s) \<Longrightarrow> frequency_of p = Inr (freq p)"
    using assms(1) valid_product_frequency(1) by (simp add: list_all_iff)
  have nn: "\<And>p. p \<in> set (products s) \<Longrightarrow> 0 \<le> freq p"
    using assms(1) valid_product_frequency(2) by (simp add: list_all_iff)
  have fa: "\<And>p. p \<in> set a \<Longrightarrow> frequency_of p = Inr (freq p)"
    and fb: "\<And>p. p \<in> set b \<Longrightarrow> frequency_of p = Inr (freq p)"
    and fc: "\<And>p. p \<in> set c \<Longrightarrow> frequency_of p = Inr (freq p)"
    using f assms(5) by auto
  have o: "py_sum (\<lambda>(i, p). bnd (frequency_of p) (\<lambda>f. Inr (real (i + 1) * 2 * f)))
           (enumerate_from0 (products s)) = Inr original"
    unfolding assms(6) using f by (rule original_distance_sum)
  have za: "py_sum (\<lambda>p. bnd (frequency_of p) (\<lambda>f. Inr (f * ZONE_A_DISTANCE_M))) a
        = Inr (\<Sum>p\<leftarrow>a. freq p * 5)"
    using zone_sum [OF fa, of a ZONE_A_DISTANCE_M] by (simp add: ZONE_A_DISTANCE_M_def)
  have zb: "py_sum (\<lambda>p. bnd (frequency_of p) (\<lambda>f. Inr (f * ZONE_B_DISTANCE_M))) b
        = Inr (\<Sum>p\<leftarrow>b. freq p * 15)"
    using zone_sum [OF fb, of b ZONE_B_DISTANCE_M] by (simp add: ZONE_B_DISTANCE_M_def)
  have zc: "py_sum (\<lambda>p. bnd (frequency_of p) (\<lambda>f. Inr (f * ZONE_C_DISTANCE_M))) c
        = Inr (\<Sum>p\<leftarrow>c. freq p * 30)"
    using zone_sum [OF fc, of c ZONE_C_DISTANCE_M] by (simp add: ZONE_C_DISTANCE_M_def)
  have la: "lookup (categories s) ''categoryA'' = Inr a"
    and lb: "lookup (categories s) ''categoryB'' = Inr b"
    and lc: "lookup (categories s) ''categoryC'' = Inr c"
    using assms(2-4) by (simp_all add: lookup_def)
  show "calculate_distance_metrics s =
      Inr (s\<lparr>metrics :=
        AList.update ''efficiency_improvement''
          (if 0 < original then (original - optimized) / original * 100 else 0)
          (AList.update ''distance_saved'' (original - optimized)
            (AList.update ''optimized_distance'' optimized
              (AList.update ''original_distance'' original (metrics s))))\<rparr>)"
    unfolding calculate_distance_metrics_def
    by (simp only: o la lb lc za zb zc bnd_Inr Let_def assms(7))
  show "0 \<le> original"
    unfolding assms(6) by (intro sum_nonneg mult_nonneg_nonneg nn) simp_all
qed

lemma calculate_distance_metrics_no_categories:
  assumes "list_all valid_product (products s)" and "categories s = []"
  shows "calculate_distance_metrics s = Inl KeyError"
proof -
  have f: "\<And>p. p \<in> set (products s) \<Longrightarrow> frequency_of p = Inr (freq p)"
    using assms(1) valid_product_frequency(1) by (simp add: list_all_iff)
  have l: "lookup (categories s) ''categoryA'' = Inl KeyError"
    by (simp add: lookup_def assms(2))
  show ?thesis
    unfolding calculate_distance_metrics_def
    by (simp only: original_distance_sum [OF f] bnd_Inr l bnd_Inl)
qed

subsection \<open>Claim C7\<close>



section \<open>The report and the pipeline\<close>

subsection \<open>Sorting by SKU\<close>

lemma sku_keys:
  "map_raise (\<lambda>p. subscript p ''sku'') ps = Inr keys \<Longrightarrow> keys = map sku_of ps"
  unfolding sku_of_def by (rule map_raise_eq_Inr)

lemma sku_le_str: "is_str a \<Longrightarrow> is_str b \<Longrightarrow> sku_le a b = (str_val a \<le> str_val b)"
  by (cases a; cases b) simp_all

lemma sku_le_num: "is_number a \<Longrightarrow> is_number b \<Longrightarrow> sku_le a b = (num_val a \<le> num_val b)"
  by (cases a; cases b) simp_all

lemma sorted_by_sku_sorted:
  assumes "sorted_by_sku ps = Inr l"
  shows "mset l = mset ps" and "sorted_wrt (\<lambda>p q. sku_le (sku_of p) (sku_of q)) l"
proof -
  from assms obtain keys where k: "map_raise (\<lambda>p. subscript p ''sku'') ps = Inr keys"
    and r: "(if length keys \<le> 1 then Inr ps
       else if list_all is_str keys then
         Inr (map snd (sort_key (\<lambda>kp. str_val (fst kp)) (zip keys ps)))
       else if list_all is_number keys then
         Inr (map snd (sort_key (\<lambda>kp. num_val (fst kp)) (zip keys ps)))
       else Inl TypeError) = Inr l"
    by (auto simp: sorted_by_sku_def bnd_eq_Inr)
  note keys = sku_keys [OF k]
  have r': "(if length ps \<le> 1 then Inr ps
       else if list_all is_str (map sku_of ps) then
         Inr (sort_key (\<lambda>p. str_val (sku_of p)) ps)
       else if list_all is_number (map sku_of ps) then
         Inr (sort_key (\<lambda>p. num_val (sku_of p)) ps)
       else Inl TypeError) = Inr l"
    using r by (simp only: keys length_map sorted_by_key_zip)
  consider (short) "length ps \<le> 1" "l = ps"
    | (str) "list_all is_str (map sku_of ps)" "l = sort_key (\<lambda>p. str_val (sku_of p)) ps"
    | (num) "list_all is_number (map sku_of ps)" "l = sort_key (\<lambda>p. num_val (sku_of p)) ps"
  proof (cases "length ps \<le> 1")
    case True
    with r' have "l = ps" by simp
    with True show ?thesis by (rule short)
  next
    case False
    note long = this
    show ?thesis
    proof (cases "list_all is_str (map sku_of ps)")
      case True
      with r' long have "l = sort_key (\<lambda>p. str_val (sku_of p)) ps" by simp
      with True show ?thesis by (rule str)
    next
      case False
      note nostr = this
      show ?thesis
      proof (cases "list_all is_number (map sku_of ps)")
        case True
        with r' long nostr have "l = sort_key (\<lambda>p. num_val (sku_of p)) ps" by simp
        with True show ?thesis by (rule num)
      next
        case False
        with r' long nostr show ?thesis by simp
      qed
    qed
  qed
  then have "mset l = mset ps \<and> sorted_wrt (\<lambda>p q. sku_le (sku_of p) (sku_of q)) l"
  proof cases
    case short
    then show ?thesis by (simp add: sorted_wrt01)
  next
    case str
    have "sorted (map (\<lambda>p. str_val (sku_of p)) l)"
      unfolding str(2) by (rule sorted_sort_key)
    then have "sorted_wrt (\<lambda>p q. str_val (sku_of p) \<le> str_val (sku_of q)) l"
      by (simp add: sorted_map)
    moreover have "\<And>p q. p \<in> set l \<Longrightarrow> q \<in> set l \<Longrightarrow>
        str_val (sku_of p) \<le> str_val (sku_of q) \<Longrightarrow> sku_le (sku_of p) (sku_of q)"
      using str by (simp add: list_all_iff sku_le_str)
    ultimately have "sorted_wrt (\<lambda>p q. sku_le (sku_of p) (sku_of q)) l"
      by (rule sorted_wrt_mono_rel [rotated])
    with str show ?thesis by simp
  next
    case num
    have "sorted (map (\<lambda>p. num_val (sku_of p)) l)"
      unfolding num(2) by (rule sorted_sort_key)
    then have "sorted_wrt (\<lambda>p q. num_val (sku_of p) \<le> num_val (sku_of q)) l"
      by (simp add: sorted_map)
    moreover have "\<And>p q. p \<in> set l \<Longrightarrow> q \<in> set l \<Longrightarrow>
        num_val (sku_of p) \<le> num_val (sku_of q) \<Longrightarrow> sku_le (sku_of p) (sku_of q)"
      using num by (simp add: list_all_iff sku_le_num)
    ultimately have "sorted_wrt (\<lambda>p q. sku_le (sku_of p) (sku_of q)) l"
      by (rule sorted_wrt_mono_rel [rotated])
    with num show ?thesis by simp
  qed
  then show "mset l = mset ps" and "sorted_wrt (\<lambda>p q. sku_le (sku_of p) (sku_of q)) l"
    by simp_all
qed

lemma is_str_hashable: "is_str k \<Longrightarrow> hashable k"
  by (cases k) simp_all

lemma sorted_by_sku_str:
  assumes "list_all valid_product ps" and "\<forall>p \<in> set ps. is_str (sku_of p)"
  shows "\<exists>l. sorted_by_sku ps = Inr l"
proof -
  have "map_raise (\<lambda>p. subscript p ''sku'') ps = Inr (map sku_of ps)"
    using assms(1) by (intro map_raise_Inr) (simp add: list_all_iff valid_product_sku)
  moreover have "list_all is_str (map sku_of ps)"
    using assms(2) by (simp add: list_all_iff)
  ultimately show ?thesis
    by (simp add: sorted_by_sku_def)
qed

lemma shuffled_sorted_by_sku:
  "sorted_by_sku shuffled_products =
     Inr [example_product ''SKU-1'' (JInt 50) (JInt 10),
          example_product ''SKU-2'' (JInt 10) (JInt 0),
          example_product ''SKU-3'' (JInt 100) (JInt 2000)]"
  by (simp add: sorted_by_sku_def shuffled_products_def example_product_def)

lemma shuffled_classified:
  "run_abc_analysis ((init path)\<lparr>products := shuffled_products\<rparr>) =
     Inr ((init path)\<lparr>products := shuffled_products,
            categories :=
              [(''categoryA'', [example_product ''SKU-3'' (JInt 100) (JInt 2000)]),
               (''categoryB'', [example_product ''SKU-1'' (JInt 50) (JInt 10)]),
               (''categoryC'', [example_product ''SKU-2'' (JInt 10) (JInt 0)])]\<rparr>)"
  by (simp add: run_abc_analysis_def py_sum_def frequency_of_def as_num_def
        sorted_by_frequency_desc_def py_div_def A_CATEGORY_PERCENTAGE_def
        B_CATEGORY_PERCENTAGE_def shuffled_products_def example_product_def)

subsection \<open>What each step of the pipeline changes\<close>

lemma print_fields [simp]:
  "products (print line s) = products s"
  "categories (print line s) = categories s"
  "metrics (print line s) = metrics s"
  "report_data (print line s) = report_data s"
  "output_file (print line s) = output_file s"
  by (simp_all add: print_def)

lemma foldl_print_output_file:
  "output_file (foldl (\<lambda>t e. print (f e) t) s es) = output_file s"
  by (induction es arbitrary: s) simp_all

lemma load_data_output_file:
  "load_data env s0 = Inr s1 \<Longrightarrow> output_file s1 = output_file s0"
  by (cases "input_file env")
    (auto simp: load_data_def Let_def bnd_eq_Inr foldl_print_output_file split: if_splits)

lemma load_data_Inr:
  assumes "load_data env s0 = Inr s1" and "products s1 \<noteq> []"
  shows "\<exists>ps. input_file env = Decoded (JList ps)
      \<and> validate_all (repr_of env) (JList ps) = Inr []
      \<and> products s1 = ps \<and> categories s1 = categories s0
      \<and> output_file s1 = output_file s0"
proof (cases "input_file env")
  case FileNotFound
  with assms show ?thesis by (auto simp: load_data_def Let_def)
next
  case InvalidJSON
  with assms show ?thesis by (auto simp: load_data_def Let_def)
next
  case (Decoded data)
  obtain errors where e: "validate_all (repr_of env) data = Inr errors"
    using validate_all_Inr by blast
  show ?thesis
  proof (cases "errors = []")
    case True
    with assms(1) Decoded e have s1: "s1 = print ''Data loaded and validated successfully.''
        ((print ''Initializing Warehouse Optimizer...'' s0)\<lparr>products := list_items data\<rparr>)"
      by (simp add: load_data_def Let_def)
    from e True have "is_list data"
      by (simp add: validate_all_Nil_is_list)
    then obtain ps where ps: "data = JList ps" by (cases data) simp_all
    show ?thesis
      using Decoded e True ps by (simp add: s1)
  next
    case False
    with assms(1) Decoded e have "products s1 = []"
      by (auto simp: load_data_def Let_def)
    with assms(2) show ?thesis by simp
  qed
qed

lemma calculate_distance_metrics_Inr:
  assumes "calculate_distance_metrics s = Inr s'"
  shows "map_of (categories s) ''categoryA'' \<noteq> None"
    and "products s' = products s" and "categories s' = categories s"
    and "output_file s' = output_file s"
  using assms
  by (auto simp: calculate_distance_metrics_def bnd_eq_Inr Let_def lookup_def
      split: option.splits)

lemma calculate_financial_metrics_Inr:
  assumes "calculate_financial_metrics s = Inr s'"
  shows "products s' = products s" and "categories s' = categories s"
    and "output_file s' = output_file s"
  using assms
  by (auto simp: calculate_financial_metrics_def bnd_eq_Inr Let_def)

lemma calculate_inventory_metrics_Inr:
  assumes "calculate_inventory_metrics s = Inr s'"
  shows "products s' = products s" and "categories s' = categories s"
    and "output_file s' = output_file s"
  using assms
  by (auto simp: calculate_inventory_metrics_def bnd_eq_Inr)

lemma calculate_all_metrics_Inr:
  assumes "calculate_all_metrics s = Inr s'" and "products s \<noteq> []"
  shows "map_of (categories s) ''categoryA'' \<noteq> None"
    and "products s' = products s" and "categories s' = categories s"
    and "output_file s' = output_file s"
proof -
  from assms obtain sa sb where a: "calculate_distance_metrics s = Inr sa"
    and b: "calculate_financial_metrics sa = Inr sb"
    and c: "calculate_inventory_metrics sb = Inr s'"
    by (auto simp: calculate_all_metrics_def bnd_eq_Inr)
  show "map_of (categories s) ''categoryA'' \<noteq> None"
    by (rule calculate_distance_metrics_Inr(1) [OF a])
  show "products s' = products s"
    by (simp only: calculate_distance_metrics_Inr(2) [OF a]
        calculate_financial_metrics_Inr(1) [OF b] calculate_inventory_metrics_Inr(1) [OF c])
  show "categories s' = categories s"
    by (simp only: calculate_distance_metrics_Inr(3) [OF a]
        calculate_financial_metrics_Inr(2) [OF b] calculate_inventory_metrics_Inr(2) [OF c])
  show "output_file s' = output_file s"
    by (simp only: calculate_distance_metrics_Inr(4) [OF a]
        calculate_financial_metrics_Inr(3) [OF b] calculate_inventory_metrics_Inr(3) [OF c])
qed

lemma save_results_to_file_Inr:
  assumes "save_results_to_file env s = Inr s'" and "output_file s = None"
    and "output_file s' = Some r"
  shows "create_results_data_for_json s = Inr r"
proof -
  show ?thesis
  proof (cases "create_results_data_for_json s")
    case (Inl x)
    with assms(1) show ?thesis by (simp add: save_results_to_file_def)
  next
    case (Inr r')
    show ?thesis
    proof (cases "write_error env")
      case None
      with assms(1) Inr have "output_file s' = Some r'"
        by (auto simp: save_results_to_file_def)
      with assms(3) Inr show ?thesis by simp
    next
      case (Some e)
      with assms(1) Inr have "output_file s' = output_file s"
        by (auto simp: save_results_to_file_def)
      with assms(2,3) show ?thesis by simp
    qed
  qed
qed

lemma create_results_data_for_json_Inr:
  assumes "create_results_data_for_json s = Inr r"
  shows "sorted_by_sku (products s) = Inr (layouts_original r)"
    and "layouts_optimized r =
       [(''A'', get_or_empty (categories s) ''categoryA''),
        (''B'', get_or_empty (categories s) ''categoryB''),
        (''C'', get_or_empty (categories s) ''categoryC'')]"
    and "abc_analysis r =
       [(''categoryA'', get_or_empty (categories s) ''categoryA''),
        (''categoryB'', get_or_empty (categories s) ''categoryB''),
        (''categoryC'', get_or_empty (categories s) ''categoryC'')]"
  using assms
  by (auto simp: create_results_data_for_json_def bnd_eq_Inr Let_def split: option.splits)

subsection \<open>A valid input is analysed and saved\<close>

lemma calculate_financial_metrics_succeeds:
  assumes "map_of (metrics s) ''original_distance'' = Some x"
    and "map_of (metrics s) ''optimized_distance'' = Some y"
  shows "\<exists>s'. calculate_financial_metrics s = Inr s'"
  using assms by (simp add: calculate_financial_metrics_def lookup_def Let_def)

lemma calculate_inventory_metrics_succeeds:
  assumes "list_all valid_product (products s)"
    and "\<forall>p \<in> set (products s). is_str (sku_of p)"
  shows "\<exists>s' m. calculate_inventory_metrics s = Inr s' \<and> report_data s' = Some m"
proof -
  have "\<forall>p \<in> set (products s). \<forall>k. subscript p ''sku'' = Inr k \<longrightarrow> hashable k"
    using assms by (auto simp: list_all_iff valid_product_sku is_str_hashable)
  from inventory_loop_hashable [OF assms(1) this, of "[]"] show ?thesis
    by (auto simp: calculate_inventory_metrics_def)
qed

lemma run_succeeds:
  assumes "input_file env = Decoded (JList ps)"
    and "validate_all (repr_of env) (JList ps) = Inr []"
    and "ps \<noteq> []"
    and "sum_list (map freq ps) \<noteq> 0"
    and "\<forall>p \<in> set ps. is_str (sku_of p)"
    and "write_error env = None"
  shows "\<exists>s r. run env = Inr s \<and> output_file s = Some r"
proof -
  define s1 where "s1 = print ''Data loaded successfully. Starting analysis...''
      (print ''Data loaded and validated successfully.''
        ((print ''Initializing Warehouse Optimizer...''
           (init ''real_world_product_data.json''))\<lparr>products := ps\<rparr>))"
  have s1: "products s1 = ps" by (simp add: s1_def)
  have valid: "list_all valid_product ps"
    using assms(2) by (simp add: validate_all_Nil_iff)
  define tot where "tot = sum_list (map freq ps)"
  define sp where "sp = sort_key (\<lambda>p. - freq p) ps"
  define ba where "ba = map (nth sp) (bucket_a tot sp)"
  define bb where "bb = map (nth sp) (bucket_b tot sp)"
  define bc where "bc = map (nth sp) (bucket_c tot sp)"
  define s2 where
    "s2 = s1\<lparr>categories := [(''categoryA'', ba), (''categoryB'', bb), (''categoryC'', bc)]\<rparr>"
  have a: "run_abc_analysis s1 = Inr s2"
    using run_abc_analysis_valid [of s1] valid assms(3,4)
    by (simp add: s1 s2_def tot_def sp_def ba_def bb_def bc_def)
  have s2: "products s2 = ps" by (simp add: s2_def s1)
  have "mset (ba @ bb @ bc) = mset sp"
    unfolding ba_def bb_def bc_def by (rule buckets_mset_products)
  then have "set (ba @ bb @ bc) = set sp"
    by (rule mset_eq_setD)
  then have sub: "set ba \<union> set bb \<union> set bc \<subseteq> set (products s2)"
    by (simp add: s2 sp_def Un_assoc)
  define original where
    "original = (\<Sum>i<length (products s2). real (i + 1) * 2 * freq (products s2 ! i))"
  define optimized where
    "optimized = (\<Sum>p\<leftarrow>ba. freq p * 5) + (\<Sum>p\<leftarrow>bb. freq p * 15) + (\<Sum>p\<leftarrow>bc. freq p * 30)"
  define sa where "sa = s2\<lparr>metrics :=
        AList.update ''efficiency_improvement''
          (if 0 < original then (original - optimized) / original * 100 else 0)
          (AList.update ''distance_saved'' (original - optimized)
            (AList.update ''optimized_distance'' optimized
              (AList.update ''original_distance'' original (metrics s2))))\<rparr>"
  have d: "calculate_distance_metrics s2 = Inr sa"
    unfolding sa_def
    by (rule calculate_distance_metrics_valid(1) [OF _ _ _ _ sub original_def optimized_def])
      (simp_all add: s2 valid, simp_all add: s2_def)
  have "map_of (metrics sa) ''original_distance'' = Some original"
    "map_of (metrics sa) ''optimized_distance'' = Some optimized"
    by (simp_all add: sa_def update_conv')
  from calculate_financial_metrics_succeeds [OF this] obtain sb
    where f: "calculate_financial_metrics sa = Inr sb" ..
  have sb: "products sb = ps"
    using calculate_financial_metrics_Inr(1) [OF f] calculate_distance_metrics_Inr(2) [OF d] s2
    by simp
  have "\<exists>s' m. calculate_inventory_metrics sb = Inr s' \<and> report_data s' = Some m"
    using valid assms(5) by (intro calculate_inventory_metrics_succeeds) (simp_all add: sb)
  then obtain s3 m where i: "calculate_inventory_metrics sb = Inr s3"
    and rd: "report_data s3 = Some m" by blast
  have s3: "products s3 = ps"
    using calculate_inventory_metrics_Inr(1) [OF i] sb by simp
  have m: "calculate_all_metrics s2 = Inr s3"
    using assms(3) by (simp add: calculate_all_metrics_def s2 d f i)
  obtain l where l: "sorted_by_sku ps = Inr l"
    using sorted_by_sku_str [OF valid assms(5)] ..
  obtain r where c: "create_results_data_for_json s3 = Inr r"
    by (simp add: create_results_data_for_json_def s3 l rd Let_def)
  have w: "save_results_to_file env s3 =
      Inr (print ([CHR 0x0A] @ ''Analysis complete. Results saved to '' @ [CHR 0x27]
                   @ ''warehouse_analysis_results.json'' @ [CHR 0x27] @ ''.'')
             (s3\<lparr>output_file := Some r\<rparr>))"
    by (simp add: save_results_to_file_def c assms(6))
  have "load_data env (init ''real_world_product_data.json'') =
      Inr (print ''Data loaded and validated successfully.''
        ((print ''Initializing Warehouse Optimizer...''
           (init ''real_world_product_data.json''))\<lparr>products := ps\<rparr>))"
    by (simp add: load_data_def Let_def assms(1,2))
  then have "run env = Inr (print ([CHR 0x0A] @ ''Analysis complete. Results saved to '' @ [CHR 0x27]
                   @ ''warehouse_analysis_results.json'' @ [CHR 0x27] @ ''.'')
             (s3\<lparr>output_file := Some r\<rparr>))"
    using assms(3) a m w by (simp add: run_def run_from_def s1_def)
  then show ?thesis by simp
qed

subsection \<open>Claim C8\<close>

text \<open>
  Claim C8. Whenever \<^verbatim>\<open>run\<close> writes a report, the input was a validated list of
  products, and the layouts of the report are two views of these same products:
  \<open>original\<close> is the list sorted by SKU, ascending (the result of \<^verbatim>\<open>sorted\<close> on the
  products, a permutation of them in which each SKU is at most the next);
  \<open>optimized\<close> maps \<open>A\<close>, \<open>B\<close> and \<open>C\<close> to the three buckets that
  \<^verbatim>\<open>run_abc_analysis\<close> produces on these products, unchanged, each in descending
  order of frequency; the buckets together are the products again.
\<close>

theorem report_layouts:
  assumes "run env = Inr s" and "output_file s = Some r"
  shows "\<exists>ps a b c.
     input_file env = Decoded (JList ps)
     \<and> validate_all (repr_of env) (JList ps) = Inr []
     \<and> (\<forall>s0. products s0 = ps \<longrightarrow>
           run_abc_analysis s0 =
             Inr (s0\<lparr>categories :=
                    [(''categoryA'', a), (''categoryB'', b), (''categoryC'', c)]\<rparr>))
     \<and> layouts_optimized r = [(''A'', a), (''B'', b), (''C'', c)]
     \<and> sorted_wrt (\<lambda>p q. freq q \<le> freq p) a
     \<and> sorted_wrt (\<lambda>p q. freq q \<le> freq p) b
     \<and> sorted_wrt (\<lambda>p q. freq q \<le> freq p) c
     \<and> mset (a @ b @ c) = mset ps
     \<and> sorted_by_sku ps = Inr (layouts_original r)
     \<and> mset (layouts_original r) = mset ps
     \<and> sorted_wrt (\<lambda>p q. sku_le (sku_of p) (sku_of q)) (layouts_original r)"
proof -
  define s0 where "s0 = init ''real_world_product_data.json''"
  have init: "categories s0 = []" "output_file s0 = None"
    by (simp_all add: s0_def init_def)
  from assms(1) obtain s1 where l: "load_data env s0 = Inr s1"
    and rest: "(if products s1 = [] then Inr s1
       else bnd (run_abc_analysis (print ''Data loaded successfully. Starting analysis...'' s1))
           (\<lambda>s. bnd (calculate_all_metrics s) (save_results_to_file env))) = Inr s"
    unfolding run_def run_from_def s0_def [symmetric] bnd_eq_Inr by blast
  have ne: "products s1 \<noteq> []"
  proof
    assume e: "products s1 = []"
    with rest have "s = s1" by simp
    moreover have "output_file s1 = None"
      using load_data_output_file [OF l] init(2) by simp
    ultimately show False using assms(2) by simp
  qed
  from load_data_Inr [OF l ne] obtain ps where ps: "input_file env = Decoded (JList ps)"
    and v: "validate_all (repr_of env) (JList ps) = Inr []"
    and f1: "products s1 = ps" "categories s1 = []" "output_file s1 = None"
    using init by auto
  define s1' where "s1' = print ''Data loaded successfully. Starting analysis...'' s1"
  have f1': "products s1' = ps" "categories s1' = []" "output_file s1' = None"
    using f1 by (simp_all add: s1'_def)
  from rest ne obtain s2 s3 where a: "run_abc_analysis s1' = Inr s2"
    and m: "calculate_all_metrics s2 = Inr s3"
    and w: "save_results_to_file env s3 = Inr s"
    by (auto simp: bnd_eq_Inr s1'_def)
  have valid: "list_all valid_product ps"
    using v by (simp add: validate_all_Nil_iff)
  have nonempty: "ps \<noteq> []" using ne f1 by simp
  define tot where "tot = sum_list (map freq ps)"
  define sp where "sp = sort_key (\<lambda>p. - freq p) ps"
  define ba where "ba = map (nth sp) (bucket_a tot sp)"
  define bb where "bb = map (nth sp) (bucket_b tot sp)"
  define bc where "bc = map (nth sp) (bucket_c tot sp)"
  have tot: "tot \<noteq> 0"
  proof
    assume z: "tot = 0"
    have "run_abc_analysis s1' =
        Inr (print ''Total frequency is zero. Analysis cannot be performed.'' s1')"
      using valid nonempty z by (intro run_abc_analysis_zero) (simp_all add: f1' tot_def)
    with a have "categories s2 = []" "products s2 = ps"
      using f1' by auto
    with calculate_all_metrics_Inr(1) [OF m] nonempty show False by simp
  qed
  have classify: "\<And>t. products t = ps \<Longrightarrow>
      run_abc_analysis t =
        Inr (t\<lparr>categories := [(''categoryA'', ba), (''categoryB'', bb), (''categoryC'', bc)]\<rparr>)"
  proof -
    fix t :: optimizer assume t: "products t = ps"
    show "run_abc_analysis t =
        Inr (t\<lparr>categories := [(''categoryA'', ba), (''categoryB'', bb), (''categoryC'', bc)]\<rparr>)"
      using run_abc_analysis_valid [of t] valid nonempty tot
      by (simp add: t tot_def sp_def ba_def bb_def bc_def)
  qed
  from classify [OF f1'(1)] a have s2: "products s2 = ps"
    "categories s2 = [(''categoryA'', ba), (''categoryB'', bb), (''categoryC'', bc)]"
    "output_file s2 = None"
    using f1' by auto
  have s3: "products s3 = ps"
    "categories s3 = [(''categoryA'', ba), (''categoryB'', bb), (''categoryC'', bc)]"
    "output_file s3 = None"
    using calculate_all_metrics_Inr(2-4) [OF m] s2 nonempty by simp_all
  have c: "create_results_data_for_json s3 = Inr r"
    using w s3(3) assms(2) by (rule save_results_to_file_Inr)
  note report = create_results_data_for_json_Inr [OF c]
  have lo: "layouts_optimized r = [(''A'', ba), (''B'', bb), (''C'', bc)]"
    using report(2) by (simp add: s3 get_or_empty_def)
  have so: "sorted_by_sku ps = Inr (layouts_original r)"
    using report(1) by (simp add: s3)
  have desc: "sorted_wrt (\<lambda>p q. freq q \<le> freq p) sp"
    unfolding sp_def by (rule sorted_desc_sort_key)
  have "mset (ba @ bb @ bc) = mset sp"
    unfolding ba_def bb_def bc_def by (rule buckets_mset_products)
  then have all: "mset (ba @ bb @ bc) = mset ps"
    by (simp add: sp_def)
  show ?thesis
    using ps v classify lo buckets_sorted [OF desc, of tot] all so sorted_by_sku_sorted [OF so]
    unfolding ba_def [symmetric] bb_def [symmetric] bc_def [symmetric]
    by blast
qed

theorem report_layouts_witness:
  "\<exists>s r. run shuffled_environment = Inr s \<and> output_file s = Some r
     \<and> layouts_original r =
         [example_product ''SKU-1'' (JInt 50) (JInt 10),
          example_product ''SKU-2'' (JInt 10) (JInt 0),
          example_product ''SKU-3'' (JInt 100) (JInt 2000)]
     \<and> layouts_optimized r =
         [(''A'', [example_product ''SKU-3'' (JInt 100) (JInt 2000)]),
          (''B'', [example_product ''SKU-1'' (JInt 50) (JInt 10)]),
          (''C'', [example_product ''SKU-2'' (JInt 10) (JInt 0)])]"
proof -
  have v: "validate_all (repr_of shuffled_environment) (JList shuffled_products) = Inr []"
    by (simp add: validate_all_Nil_iff shuffled_products_def example_product_def
          required_keys_def has_key_def dict_get_def number_ge0_def)
  have "\<exists>s r. run shuffled_environment = Inr s \<and> output_file s = Some r"
  proof (rule run_succeeds [OF _ v])
    show "input_file shuffled_environment = Decoded (JList shuffled_products)"
      by (simp add: shuffled_environment_def)
    show "shuffled_products \<noteq> []" by (simp add: shuffled_products_def)
    show "sum_list (map freq shuffled_products) \<noteq> 0"
      by (simp add: shuffled_products_def example_product_def freq_def frequency_of_def
            as_num_def)
    show "\<forall>p \<in> set shuffled_products. is_str (sku_of p)"
      by (simp add: shuffled_products_def example_product_def sku_of_def)
    show "write_error shuffled_environment = None"
      by (simp add: shuffled_environment_def)
  qed
  then obtain s r where run: "run shuffled_environment = Inr s"
    and out: "output_file s = Some r" by blast
  from report_layouts [OF run out] obtain ps a b c where
    ps: "input_file shuffled_environment = Decoded (JList ps)"
    and cl: "\<forall>s0. products s0 = ps \<longrightarrow>
           run_abc_analysis s0 =
             Inr (s0\<lparr>categories :=
                    [(''categoryA'', a), (''categoryB'', b), (''categoryC'', c)]\<rparr>)"
    and lo: "layouts_optimized r = [(''A'', a), (''B'', b), (''C'', c)]"
    and so: "sorted_by_sku ps = Inr (layouts_original r)"
    by blast
  from ps have p: "ps = shuffled_products"
    by (simp add: shuffled_environment_def)
  from cl p have "run_abc_analysis ((init ''in.json'')\<lparr>products := shuffled_products\<rparr>) =
      Inr ((init ''in.json'')\<lparr>products := shuffled_products,
             categories := [(''categoryA'', a), (''categoryB'', b), (''categoryC'', c)]\<rparr>)"
    by simp
  then have "categories ((init ''in.json'')\<lparr>products := shuffled_products,
             categories := [(''categoryA'', a), (''categoryB'', b), (''categoryC'', c)]\<rparr>)
      = categories ((init ''in.json'')\<lparr>products := shuffled_products,
            categories :=
              [(''categoryA'', [example_product ''SKU-3'' (JInt 100) (JInt 2000)]),
               (''categoryB'', [example_product ''SKU-1'' (JInt 50) (JInt 10)]),
               (''categoryC'', [example_product ''SKU-2'' (JInt 10) (JInt 0)])]\<rparr>)"
    by (simp only: shuffled_classified sum.inject)
  then have abc: "a = [example_product ''SKU-3'' (JInt 100) (JInt 2000)]"
    "b = [example_product ''SKU-1'' (JInt 50) (JInt 10)]"
    "c = [example_product ''SKU-2'' (JInt 10) (JInt 0)]"
    by simp_all
  from so p have "layouts_original r =
         [example_product ''SKU-1'' (JInt 50) (JInt 10),
          example_product ''SKU-2'' (JInt 10) (JInt 0),
          example_product ''SKU-3'' (JInt 100) (JInt 2000)]"
    by (simp add: shuffled_sorted_by_sku)
  with run out lo abc show ?thesis by simp
qed

subsection \<open>Claim C1\<close>

text \<open>
  Claim C1 (where the code departs from it). The input is a single product with
  frequency 0 and unit cost 10. It passes validation, and \<^verbatim>\<open>run_abc_analysis\<close>
  prints that the total frequency is zero and returns without storing categories.
  \<^verbatim>\<open>run\<close> then goes on to \<^verbatim>\<open>calculate_all_metrics\<close>, where
  \<^verbatim>\<open>self.categories['categoryA']\<close> raises \<^verbatim>\<open>KeyError\<close>: the exception leaves
  \<^verbatim>\<open>run\<close>. No output file is written.
\<close>

theorem run_zero_frequency_raises:
  "validate_all repr zero_frequency_input = Inr []
   \<and> run_abc_analysis ((init path)\<lparr>products := list_items zero_frequency_input\<rparr>) =
       Inr (print ''Total frequency is zero. Analysis cannot be performed.''
              ((init path)\<lparr>products := list_items zero_frequency_input\<rparr>))
   \<and> run \<lparr>input_file = Decoded zero_frequency_input, repr_of = repr, write_error = w\<rparr>
       = Inl KeyError"
  by (simp add: zero_frequency_input_def run_def run_from_def load_data_def validate_all_def
        check_overall_format_def check_product_fields_def example_product_def required_keys_def
        has_key_def validate_numerical_fields_def dict_get_def number_ge0_def print_def init_def
        run_abc_analysis_def py_sum_def frequency_of_def as_num_def calculate_all_metrics_def
        calculate_distance_metrics_def enumerate_from0_def lookup_def)

text \<open>The failure of claim C1 is not particular to one input: every validated,
  non-empty input whose total frequency is zero makes \<^verbatim>\<open>run\<close> raise
  \<^verbatim>\<open>KeyError\<close>.\<close>

lemma run_zero_total_raises:
  assumes "input_file env = Decoded (JList ps)"
    and "validate_all (repr_of env) (JList ps) = Inr []"
    and "ps \<noteq> []"
    and "sum_list (map freq ps) = 0"
  shows "run env = Inl KeyError"
proof -
  define s1 where "s1 = print ''Data loaded successfully. Starting analysis...''
      (print ''Data loaded and validated successfully.''
        ((print ''Initializing Warehouse Optimizer...''
           (init ''real_world_product_data.json''))\<lparr>products := ps\<rparr>))"
  define s2 where "s2 = print ''Total frequency is zero. Analysis cannot be performed.'' s1"
  have s1: "products s1 = ps" "categories s1 = []" by (simp_all add: s1_def init_def)
  have valid: "list_all valid_product ps"
    using assms(2) by (simp add: validate_all_Nil_iff)
  have a: "run_abc_analysis s1 = Inr s2"
    unfolding s2_def using valid assms(3,4) by (intro run_abc_analysis_zero) (simp_all add: s1)
  have "calculate_distance_metrics s2 = Inl KeyError"
    using valid by (intro calculate_distance_metrics_no_categories) (simp_all add: s2_def s1)
  then have m: "calculate_all_metrics s2 = Inl KeyError"
    using assms(3) by (simp add: calculate_all_metrics_def s2_def s1)
  have "load_data env (init ''real_world_product_data.json'') =
      Inr (print ''Data loaded and validated successfully.''
        ((print ''Initializing Warehouse Optimizer...''
           (init ''real_world_product_data.json''))\<lparr>products := ps\<rparr>))"
    by (simp add: load_data_def Let_def assms(1,2))
  then show ?thesis
    using assms(3) a m by (simp add: run_def run_from_def s1_def)
qed

end
